theory Spec2Isabelle
  imports Main "HOL-Library.AList"
begin

section \<open>Values and exceptions\<close>

text \<open>
  Python values that travel through futures and events.  \<open>PyRef\<close> is a reference to
  some object by its address, \<open>PyEventHandler\<close> to an EventHandler, \<open>PyGenerator\<close> to a
  generator (what \<open>isgenerator\<close> accepts).  \<open>PyOneTime a\<close> is the OneTime at address
  \<open>a\<close> and \<open>PyDeferred a\<close> the Deferred that this OneTime keeps in \<open>_events\<close>: the two
  kinds of value that are instances of \<open>Deferred\<close>.
\<close>

datatype pyval =
    PyNone
  | PyBool bool
  | PyInt int
  | PyStr string
  | PyRef nat
  | PyEventHandler nat
  | PyGenerator nat
  | PyOneTime nat
  | PyDeferred nat

text \<open>
  The exception classes the two modules raise or name.  \<open>OtherError\<close> stands for any
  other subclass of \<open>Exception\<close> raised by user code; \<open>StopError\<close> is the module's
  \<open>_StopError\<close>, a \<open>BaseException\<close> that is not an \<open>Exception\<close>.  Messages are
  not modelled.
\<close>

datatype exn =
    Error
  | CancelledError
  | TimeoutError
  | InvalidStateError
  | ValueError
  | AssertionError
  | KeyError
  | OtherError nat
  | StopError

fun is_Exception :: "exn \<Rightarrow> bool" where
  "is_Exception StopError = False"
| "is_Exception _ = True"

section \<open>The asyncio fallback: handles, loops, futures and tasks\<close>

datatype state = PENDING | CANCELLED | FINISHED

text \<open>
  What a handle or a callback list can hold: a user function (known by its identity
  only, the module never calls it), the bound methods \<open>_step\<close> and \<open>_wakeup\<close> of a
  Task, or the bound method \<open>activate\<close> of a traceback logger.
\<close>

datatype callback = Fn nat | Task_step nat | Task_wakeup nat | TbLogger_activate nat

record handle =
  h_when :: "int option"
  h_callback :: callback
  h_args :: "pyval list"
  h_cancelled :: bool

text \<open>The attributes a Task adds to a Future.\<close>

record task_fields =
  fut_waiter :: "nat option"
  must_cancel :: bool

text \<open>
  A Future object.  \<open>f_task\<close> is \<open>None\<close> for an instance of \<open>Future\<close> itself and holds
  the Task attributes for an instance of \<open>Task\<close>.  \<open>f_exception = None\<close> and
  \<open>f_tb_logger = None\<close> are Python's \<open>None\<close>.
\<close>

record future =
  f_state :: state
  f_result :: pyval
  f_exception :: "exn option"
  f_loop :: nat
  f_callbacks :: "callback list"
  f_tb_logger :: "nat option"
  f_task :: "task_fields option"

text \<open>
  The store: Future and Task objects by address, the \<open>_ready\<close> list of every event
  loop, and the traceback loggers.

  Modelled from the spec: \<open>_TracebackLogger\<close> (module \<open>tracelogger\<close>) holds the
  exception of a failed Future until \<open>clear()\<close> is called on it; \<open>tb_loggers w n\<close> is
  the exception logger \<open>n\<close> still holds, \<open>next_tb\<close> the address of the next logger.
\<close>

record world =
  heap :: "nat \<Rightarrow> future"
  ready :: "nat \<Rightarrow> handle list"
  tb_loggers :: "nat \<Rightarrow> exn option"
  next_tb :: nat

text \<open>
  \<open>Future.__init__(loop)\<close> with the class attributes as defaults, and
  \<open>Task.__init__(coro, loop)\<close>, which also schedules the first step.  The new object is
  stored at address \<open>a\<close>.
\<close>

definition new_Future :: "nat \<Rightarrow> future" where
  "new_Future l =
     \<lparr>f_state = PENDING, f_result = PyNone, f_exception = None, f_loop = l,
      f_callbacks = [], f_tb_logger = None, f_task = None\<rparr>"

definition upd_future :: "nat \<Rightarrow> (future \<Rightarrow> future) \<Rightarrow> world \<Rightarrow> world" where
  "upd_future a g w = w\<lparr>heap := (heap w)(a := g (heap w a))\<rparr>"

definition mk_handle :: "callback \<Rightarrow> pyval list \<Rightarrow> handle" where
  "mk_handle cb as = \<lparr>h_when = None, h_callback = cb, h_args = as, h_cancelled = False\<rparr>"

text \<open>\<open>BaseEventLoop.call_soon\<close>: a \<open>TimerHandle(None, callback, args)\<close> appended to \<open>_ready\<close>.\<close>

definition call_soon :: "nat \<Rightarrow> callback \<Rightarrow> pyval list \<Rightarrow> world \<Rightarrow> handle \<times> world" where
  "call_soon l cb as w =
     (let handle = mk_handle cb as
      in (handle, w\<lparr>ready := (ready w)(l := ready w l @ [handle])\<rparr>))"

definition Future_init :: "nat \<Rightarrow> nat \<Rightarrow> world \<Rightarrow> world" where
  "Future_init a l w = upd_future a (\<lambda>_. new_Future l) w"

definition Task_init :: "nat \<Rightarrow> nat \<Rightarrow> world \<Rightarrow> world" where
  "Task_init a l w =
     (let w1 = Future_init a l w;
          w2 = upd_future a
                 (\<lambda>f. f\<lparr>f_task := Some \<lparr>fut_waiter = None, must_cancel = False\<rparr>\<rparr>) w1
      in snd (call_soon (f_loop (heap w2 a)) (Task_step a) [] w2))"

text \<open>The loop of \<open>_schedule_callbacks\<close>: \<open>for callback in callbacks: call_soon(callback, self)\<close>.\<close>

fun schedule_each :: "nat \<Rightarrow> pyval \<Rightarrow> callback list \<Rightarrow> world \<Rightarrow> world" where
  "schedule_each l self [] w = w"
| "schedule_each l self (cb # cbs) w = schedule_each l self cbs (snd (call_soon l cb [self] w))"

definition schedule_callbacks :: "nat \<Rightarrow> world \<Rightarrow> world" where
  "schedule_callbacks a w =
     (let callbacks = f_callbacks (heap w a)
      in if callbacks = [] then w
         else let w1 = upd_future a (\<lambda>f. f\<lparr>f_callbacks := []\<rparr>) w
              in schedule_each (f_loop (heap w1 a)) (PyRef a) callbacks w1)"

definition Future_cancel :: "nat \<Rightarrow> world \<Rightarrow> bool \<times> world" where
  "Future_cancel a w =
     (if f_state (heap w a) \<noteq> PENDING then (False, w)
      else let w1 = upd_future a (\<lambda>f. f\<lparr>f_state := CANCELLED\<rparr>) w;
               w2 = schedule_callbacks a w1
           in (True, w2))"

definition Future_cancelled :: "nat \<Rightarrow> world \<Rightarrow> bool" where
  "Future_cancelled a w = (f_state (heap w a) = CANCELLED)"

definition Future_done :: "nat \<Rightarrow> world \<Rightarrow> bool" where
  "Future_done a w = (f_state (heap w a) \<noteq> PENDING)"

text \<open>
  The two lines \<open>self._tb_logger.clear(); self._tb_logger = None\<close> that \<open>result\<close> and
  \<open>exception\<close> share.
\<close>

definition clear_tb_logger :: "nat \<Rightarrow> world \<Rightarrow> world" where
  "clear_tb_logger a w =
     (case f_tb_logger (heap w a) of
        None \<Rightarrow> w
      | Some n \<Rightarrow>
          upd_future a (\<lambda>f. f\<lparr>f_tb_logger := None\<rparr>)
            (w\<lparr>tb_loggers := (tb_loggers w)(n := None)\<rparr>))"

text \<open>A raised exception is \<open>Inl\<close>; the store comes back in both cases.\<close>

definition Future_result :: "nat \<Rightarrow> world \<Rightarrow> (exn + pyval) \<times> world" where
  "Future_result a w =
     (if f_state (heap w a) = CANCELLED then (Inl CancelledError, w)
      else if f_state (heap w a) \<noteq> FINISHED then (Inl InvalidStateError, w)
      else let w1 = clear_tb_logger a w
           in case f_exception (heap w1 a) of
                Some e \<Rightarrow> (Inl e, w1)
              | None \<Rightarrow> (Inr (f_result (heap w1 a)), w1))"

definition Future_exception :: "nat \<Rightarrow> world \<Rightarrow> (exn + exn option) \<times> world" where
  "Future_exception a w =
     (if f_state (heap w a) = CANCELLED then (Inl CancelledError, w)
      else if f_state (heap w a) \<noteq> FINISHED then (Inl InvalidStateError, w)
      else let w1 = clear_tb_logger a w
           in (Inr (f_exception (heap w1 a)), w1))"

definition add_done_callback :: "nat \<Rightarrow> callback \<Rightarrow> world \<Rightarrow> world" where
  "add_done_callback a fn w =
     (if f_state (heap w a) \<noteq> PENDING
      then snd (call_soon (f_loop (heap w a)) fn [PyRef a] w)
      else upd_future a (\<lambda>f. f\<lparr>f_callbacks := f_callbacks f @ [fn]\<rparr>) w)"

definition remove_done_callback :: "nat \<Rightarrow> callback \<Rightarrow> world \<Rightarrow> nat \<times> world" where
  "remove_done_callback a fn w =
     (let filtered_callbacks = filter (\<lambda>f. f \<noteq> fn) (f_callbacks (heap w a));
          removed_count = length (f_callbacks (heap w a)) - length filtered_callbacks
      in if removed_count \<noteq> 0
         then (removed_count, upd_future a (\<lambda>f. f\<lparr>f_callbacks := filtered_callbacks\<rparr>) w)
         else (removed_count, w))"

definition set_result :: "nat \<Rightarrow> pyval \<Rightarrow> world \<Rightarrow> (exn + unit) \<times> world" where
  "set_result a v w =
     (if f_state (heap w a) \<noteq> PENDING then (Inl InvalidStateError, w)
      else let w1 = upd_future a (\<lambda>f. f\<lparr>f_result := v\<rparr>) w;
               w2 = upd_future a (\<lambda>f. f\<lparr>f_state := FINISHED\<rparr>) w1;
               w3 = schedule_callbacks a w2
           in (Inr (), w3))"

definition set_exception :: "nat \<Rightarrow> exn \<Rightarrow> world \<Rightarrow> (exn + unit) \<times> world" where
  "set_exception a e w =
     (if f_state (heap w a) \<noteq> PENDING then (Inl InvalidStateError, w)
      else let w1 = upd_future a (\<lambda>f. f\<lparr>f_exception := Some e\<rparr>) w;
               w2 = upd_future a (\<lambda>f. f\<lparr>f_state := FINISHED\<rparr>) w1;
               w3 = schedule_callbacks a w2;
               n = next_tb w3;
               w4 = w3\<lparr>tb_loggers := (tb_loggers w3)(n := Some e), next_tb := Suc n\<rparr>;
               w5 = upd_future a (\<lambda>f. f\<lparr>f_tb_logger := Some n\<rparr>) w4
           in (Inr (), snd (call_soon (f_loop (heap w5 a)) (TbLogger_activate n) [] w5)))"

text \<open>The assignment \<open>self._must_cancel = True\<close>.\<close>

definition arm :: "nat \<Rightarrow> world \<Rightarrow> world" where
  "arm a w =
     upd_future a (\<lambda>f. f\<lparr>f_task := map_option (\<lambda>t. t\<lparr>must_cancel := True\<rparr>) (f_task f)\<rparr>) w"

text \<open>
  \<open>Task.cancel\<close>.  The call \<open>self._fut_waiter.cancel()\<close> is dispatched on the class of
  the waiter: \<open>Future.cancel\<close> for a plain Future, \<open>Task.cancel\<close> again for a Task.
  The first argument bounds the depth of these nested calls; \<open>None\<close> means the chain of
  waiters did not end within that depth (a cycle of tasks waiting for each other never
  ends).
\<close>

fun Task_cancel :: "nat \<Rightarrow> nat \<Rightarrow> world \<Rightarrow> (bool \<times> world) option" where
  "Task_cancel 0 a w = None"
| "Task_cancel (Suc d) a w =
     (if Future_done a w then Some (False, w)
      else
        case Option.bind (f_task (heap w a)) fut_waiter of
             None \<Rightarrow> Some (True, arm a w)
           | Some fw \<Rightarrow>
               (case (if f_task (heap w fw) = None then Some (Future_cancel fw w)
                      else Task_cancel d fw w) of
                  None \<Rightarrow> None
                | Some (True, w1) \<Rightarrow> Some (True, w1)
                | Some (False, w1) \<Rightarrow> Some (True, arm a w1)))"

text \<open>
  The handles \<open>_schedule_callbacks\<close> puts on the ready list of the loop for the Future at
  \<open>a\<close> with callback list \<open>cbs\<close>, and the pending-cancel flag of the Task at \<open>a\<close>
  (\<open>None\<close> when the object is not a Task).
\<close>

definition scheduled :: "nat \<Rightarrow> callback list \<Rightarrow> handle list" where
  "scheduled a cbs = map (\<lambda>cb. mk_handle cb [PyRef a]) cbs"

definition Task_must_cancel :: "nat \<Rightarrow> world \<Rightarrow> bool option" where
  "Task_must_cancel a w = map_option must_cancel (f_task (heap w a))"

section \<open>Events: the store and the callbacks\<close>

type_synonym kwargs = "(string \<times> pyval) list"

text \<open>What a call of a user function does: it returns a value or raises.\<close>

datatype outcome = Returned pyval | Raised exn

text \<open>
  A record of the error sink: \<open>logger().warning(msg, *args)\<close>, \<open>logger().error(msg)\<close> and
  \<open>logger().exception(msg)\<close>, the last with the exception being handled.
\<close>

datatype level = WARNING | ERROR

record log_record =
  lr_level :: level
  lr_msg :: string
  lr_args :: "pyval list"
  lr_exc :: "exn option"

text \<open>An \<open>Event\<close>: \<open>_silenced\<close>, \<open>_handlers\<close> (user functions, by identity) and \<open>_fired\<close>.\<close>

record event =
  e_silenced :: bool
  e_handlers :: "nat list"
  e_fired :: int

text \<open>
  What the callback chain of a Deferred can hold: a user function, or the bound method
  \<open>_check\<close> of the OneTime at an address.
\<close>

datatype callable = Function nat | Check_of nat

text \<open>
  Modelled from the spec: \<open>Deferred\<close> (module \<open>defer\<close>), the chainable settlement primitive:
  it is settled with a value exactly once (\<open>d_called\<close>, \<open>d_result\<close>), it queues
  callback/errback pairs (\<open>d_callbacks\<close>) and drains the queue once settled
  (\<open>d_running\<close> while it drains), and it may be chained to another one (\<open>d_chained_to\<close>).
\<close>

record deferred =
  d_called :: bool
  d_result :: pyval
  d_callbacks :: "(callable \<times> callable option) list"
  d_running :: bool
  d_chained_to :: "nat option"

text \<open>
  A \<open>OneTime\<close> is a Deferred itself (\<open>o_deferred\<close>) and owns a second one, \<open>_events\<close>
  (\<open>o_events\<close>).
\<close>

record onetime =
  o_silenced :: bool
  o_deferred :: deferred
  o_events :: deferred

text \<open>A value of an EventHandler's dictionary: a reference to an Event or to a OneTime.\<close>

datatype dispatcher = EventAt nat | OneTimeAt nat

text \<open>
  The store of the event layer: the Event and OneTime objects by address, the \<open>_events\<close>
  dictionary of every EventHandler (in insertion order), the next free address, the
  records the error sink has received, and the generators handed to \<open>async\<close>.  \<open>calls\<close>
  is not program state: it records every call of a user function, in order, with its
  arguments.
\<close>

record eworld =
  events :: "nat \<Rightarrow> event"
  onetimes :: "nat \<Rightarrow> onetime"
  registries :: "nat \<Rightarrow> (string \<times> dispatcher) list"
  next_id :: nat
  log :: "log_record list"
  spawned :: "pyval list"
  calls :: "(nat \<times> pyval \<times> kwargs) list"

text \<open>
  User functions are arbitrary code: function \<open>k\<close> called with \<open>arg\<close> and \<open>kwargs\<close> in
  store \<open>w\<close> gives an outcome and a new store (it may bind, fire or silence events
  itself).  The behaviour of all user functions is a parameter of the model.
\<close>

type_synonym behaviour = "nat \<Rightarrow> pyval \<Rightarrow> kwargs \<Rightarrow> eworld \<Rightarrow> outcome \<times> eworld"

text \<open>
  A call of user function \<open>k\<close>: the call is put on the record, then the function runs.
  What the function does to the store, and so the calls made inside it, is its own
  behaviour.
\<close>

definition call_function :: "behaviour \<Rightarrow> nat \<Rightarrow> pyval \<Rightarrow> kwargs \<Rightarrow> eworld \<Rightarrow> outcome \<times> eworld" where
  "call_function beh k arg kw w = beh k arg kw (w\<lparr>calls := calls w @ [(k, arg, kw)]\<rparr>)"

definition isgenerator :: "pyval \<Rightarrow> bool" where
  "isgenerator g = (case g of PyGenerator _ \<Rightarrow> True | _ \<Rightarrow> False)"

definition isinstance_Deferred :: "pyval \<Rightarrow> bool" where
  "isinstance_Deferred v = (case v of PyOneTime _ \<Rightarrow> True | PyDeferred _ \<Rightarrow> True | _ \<Rightarrow> False)"

definition emit :: "log_record \<Rightarrow> eworld \<Rightarrow> eworld" where
  "emit r w = w\<lparr>log := log w @ [r]\<rparr>"

definition logger_exception :: "string \<Rightarrow> exn \<Rightarrow> eworld \<Rightarrow> eworld" where
  "logger_exception msg e w =
     emit \<lparr>lr_level = ERROR, lr_msg = msg, lr_args = [], lr_exc = Some e\<rparr> w"

definition logger_error :: "string \<Rightarrow> eworld \<Rightarrow> eworld" where
  "logger_error msg w = emit \<lparr>lr_level = ERROR, lr_msg = msg, lr_args = [], lr_exc = None\<rparr> w"

definition logger_warning :: "string \<Rightarrow> pyval list \<Rightarrow> eworld \<Rightarrow> eworld" where
  "logger_warning msg as w =
     emit \<lparr>lr_level = WARNING, lr_msg = msg, lr_args = as, lr_exc = None\<rparr> w"

text \<open>
  Modelled from the spec: \<open>async(g)\<close> (module \<open>defer\<close>) admits the generator to the Task
  scheduler; nothing of it runs inside the call.
\<close>

definition async :: "pyval \<Rightarrow> eworld \<Rightarrow> eworld" where
  "async g w = w\<lparr>spawned := spawned w @ [g]\<rparr>"

section \<open>Event\<close>

definition new_Event :: event where
  "new_Event = \<lparr>e_silenced = False, e_handlers = [], e_fired = 0\<rparr>"

definition upd_event :: "nat \<Rightarrow> (event \<Rightarrow> event) \<Rightarrow> eworld \<Rightarrow> eworld" where
  "upd_event a g w = w\<lparr>events := (events w)(a := g (events w a))\<rparr>"

text \<open>\<open>AbstractEvent.silence\<close>, for an Event.\<close>

definition Event_silence :: "nat \<Rightarrow> eworld \<Rightarrow> eworld" where
  "Event_silence a w = upd_event a (\<lambda>e. e\<lparr>e_silenced := True\<rparr>) w"

text \<open>\<open>Event.bind\<close>; an errback is any truthy second argument.\<close>

definition Event_bind :: "nat \<Rightarrow> nat \<Rightarrow> nat option \<Rightarrow> eworld \<Rightarrow> (exn + unit) \<times> eworld" where
  "Event_bind a callback errback w =
     (if errback \<noteq> None then (Inl ValueError, w)
      else (Inr (), upd_event a (\<lambda>e. e\<lparr>e_handlers := e_handlers e @ [callback]\<rparr>) w))"

definition Event_fired :: "nat \<Rightarrow> eworld \<Rightarrow> int" where
  "Event_fired a w = e_fired (events w a)"

text \<open>
  The loop of \<open>Event.fire\<close>.  Python's \<open>for hnd in self._handlers\<close> reads the list by
  position, one element at a time, so that handlers bound by a handler during the pass
  are reached too; \<open>i\<close> is the position.  The first argument bounds the number of
  iterations: \<open>None\<close> means the pass did not come to an end within it.  An exception that
  is not an \<open>Exception\<close> passes through the \<open>except\<close> clause and ends the pass.
\<close>

fun Event_fire_loop ::
  "behaviour \<Rightarrow> nat \<Rightarrow> nat \<Rightarrow> nat \<Rightarrow> pyval \<Rightarrow> kwargs \<Rightarrow> eworld \<Rightarrow> ((exn + pyval) \<times> eworld) option"
where
  "Event_fire_loop beh 0 a i arg kw w = None"
| "Event_fire_loop beh (Suc n) a i arg kw w =
     (if i < length (e_handlers (events w a))
      then
        (case call_function beh (e_handlers (events w a) ! i) arg kw w of
           (Raised e, w1) \<Rightarrow>
             if is_Exception e
             then Event_fire_loop beh n a (Suc i) arg kw
                    (logger_exception ''Exception while firing event'' e w1)
             else Some (Inl e, w1)
         | (Returned g, w1) \<Rightarrow>
             Event_fire_loop beh n a (Suc i) arg kw (if isgenerator g then async g w1 else w1))
      else Some (Inr PyNone, w))"

definition Event_fire ::
  "behaviour \<Rightarrow> nat \<Rightarrow> nat \<Rightarrow> pyval \<Rightarrow> kwargs \<Rightarrow> eworld \<Rightarrow> ((exn + pyval) \<times> eworld) option"
where
  "Event_fire beh n a arg kw w =
     (if \<not> e_silenced (events w a)
      then Event_fire_loop beh n a 0 arg kw (upd_event a (\<lambda>e. e\<lparr>e_fired := e_fired e + 1\<rparr>) w)
      else Some (Inr PyNone, w))"

section \<open>Deferred and OneTime\<close>

text \<open>
  A OneTime has two Deferreds, the object itself and \<open>self._events\<close>; \<open>dsel\<close> says which
  one an operation works on.
\<close>

datatype dsel = D_self | D_events

definition new_Deferred :: deferred where
  "new_Deferred =
     \<lparr>d_called = False, d_result = PyNone, d_callbacks = [], d_running = False,
      d_chained_to = None\<rparr>"

definition new_OneTime :: onetime where
  "new_OneTime = \<lparr>o_silenced = False, o_deferred = new_Deferred, o_events = new_Deferred\<rparr>"

definition get_d :: "dsel \<Rightarrow> nat \<Rightarrow> eworld \<Rightarrow> deferred" where
  "get_d s a w =
     (case s of D_self \<Rightarrow> o_deferred (onetimes w a) | D_events \<Rightarrow> o_events (onetimes w a))"

definition upd_d :: "dsel \<Rightarrow> nat \<Rightarrow> (deferred \<Rightarrow> deferred) \<Rightarrow> eworld \<Rightarrow> eworld" where
  "upd_d s a g w =
     w\<lparr>onetimes := (onetimes w)(a :=
         (case s of
            D_self \<Rightarrow> (onetimes w a)\<lparr>o_deferred := g (o_deferred (onetimes w a))\<rparr>
          | D_events \<Rightarrow> (onetimes w a)\<lparr>o_events := g (o_events (onetimes w a))\<rparr>))\<rparr>"

text \<open>
  Modelled from the spec: the operations of \<open>Deferred\<close> (module \<open>defer\<close>).
  \<open>Deferred.callback(result)\<close> settles the Deferred with a value, once: on a settled one
  it raises \<open>InvalidStateError\<close>; otherwise it stores the value, drains the queue and
  returns the stored value.  \<open>Deferred.add_callback(callback, errback)\<close> queues a pair at
  any time; when the Deferred is settled and is not draining, the queue is drained at
  once, so the callback is called with the stored value; while it drains, the pair is
  only appended to the chain being drained.  Draining takes the pairs from the front of
  the queue one by one and calls the callback with the stored value; a failure of a
  callback is reported to the error sink and neither stops the others nor reaches the
  caller.  \<open>add_callback\<close> returns the Deferred.

  \<open>OneTime._check\<close> is from the source; it is itself a callback of \<open>_events\<close> and calls
  the Deferred's operations, so these operations call each other.  \<open>dcall\<close> names the
  operation and its arguments, \<open>exec\<close> runs one.  The first argument of \<open>exec\<close> bounds
  the depth of nested calls and the number of callbacks drained; \<open>None\<close> means that the
  bound was reached.
\<close>

datatype dcall =
    Drain dsel nat
  | Run_callbacks dsel nat
  | Callback dsel nat pyval
  | Add_callback dsel nat callable "callable option"
  | Check nat pyval

primrec exec :: "nat \<Rightarrow> behaviour \<Rightarrow> dcall \<Rightarrow> eworld \<Rightarrow> ((exn + pyval) \<times> eworld) option" where
  "exec 0 beh c w = None"
| "exec (Suc n) beh c w =
     (case c of
        Drain s a \<Rightarrow>
          (case d_callbacks (get_d s a w) of
             [] \<Rightarrow> Some (Inr PyNone, w)
           | (callback, errback) # rest \<Rightarrow>
               let w1 = upd_d s a (\<lambda>d. d\<lparr>d_callbacks := rest\<rparr>) w;
                   result = d_result (get_d s a w1)
               in case (case callback of
                          Function k \<Rightarrow>
                            Some (case call_function beh k result [] w1 of
                                    (Returned v, w2) \<Rightarrow> (Inr v, w2)
                                  | (Raised e, w2) \<Rightarrow> (Inl e, w2))
                        | Check_of b \<Rightarrow> exec n beh (Check b result) w1) of
                    None \<Rightarrow> None
                  | Some (Inl e, w2) \<Rightarrow> exec n beh (Drain s a) (logger_exception [] e w2)
                  | Some (Inr v, w2) \<Rightarrow> exec n beh (Drain s a) w2)
      | Run_callbacks s a \<Rightarrow>
          (if d_called (get_d s a w) \<and> \<not> d_running (get_d s a w)
           then case exec n beh (Drain s a) (upd_d s a (\<lambda>d. d\<lparr>d_running := True\<rparr>) w) of
                  None \<Rightarrow> None
                | Some (r, w1) \<Rightarrow> Some (Inr PyNone, upd_d s a (\<lambda>d. d\<lparr>d_running := False\<rparr>) w1)
           else Some (Inr PyNone, w))
      | Callback s a result \<Rightarrow>
          (if d_called (get_d s a w) then Some (Inl InvalidStateError, w)
           else case exec n beh (Run_callbacks s a)
                       (upd_d s a (\<lambda>d. d\<lparr>d_called := True, d_result := result\<rparr>) w) of
                  None \<Rightarrow> None
                | Some (r, w1) \<Rightarrow> Some (Inr (d_result (get_d s a w1)), w1))
      | Add_callback s a callback errback \<Rightarrow>
          (case exec n beh (Run_callbacks s a)
                  (upd_d s a (\<lambda>d. d\<lparr>d_callbacks := d_callbacks d @ [(callback, errback)]\<rparr>) w) of
             None \<Rightarrow> None
           | Some (r, w1) \<Rightarrow>
               Some (Inr (case s of D_self \<Rightarrow> PyOneTime a | D_events \<Rightarrow> PyDeferred a), w1))
      | Check a result \<Rightarrow>
          (if d_callbacks (get_d D_events a w) \<noteq> []
           then exec n beh (Add_callback D_events a (Check_of a) (Some (Check_of a))) w
           else if d_chained_to (get_d D_self a w) = None
           then exec n beh (Callback D_self a result) w
           else Some (Inr PyNone, w)))"

definition Deferred_callback ::
  "behaviour \<Rightarrow> nat \<Rightarrow> dsel \<Rightarrow> nat \<Rightarrow> pyval \<Rightarrow> eworld \<Rightarrow> ((exn + pyval) \<times> eworld) option"
where
  "Deferred_callback beh n s a result w = exec n beh (Callback s a result) w"

definition Deferred_add_callback ::
  "behaviour \<Rightarrow> nat \<Rightarrow> dsel \<Rightarrow> nat \<Rightarrow> callable \<Rightarrow> callable option \<Rightarrow> eworld \<Rightarrow>
   ((exn + pyval) \<times> eworld) option"
where
  "Deferred_add_callback beh n s a callback errback w =
     exec n beh (Add_callback s a callback errback) w"

definition OneTime_check ::
  "behaviour \<Rightarrow> nat \<Rightarrow> nat \<Rightarrow> pyval \<Rightarrow> eworld \<Rightarrow> ((exn + pyval) \<times> eworld) option"
where
  "OneTime_check beh n a result w = exec n beh (Check a result) w"

definition OneTime_silence :: "nat \<Rightarrow> eworld \<Rightarrow> eworld" where
  "OneTime_silence a w =
     w\<lparr>onetimes := (onetimes w)(a := (onetimes w a)\<lparr>o_silenced := True\<rparr>)\<rparr>"

definition OneTime_bind ::
  "behaviour \<Rightarrow> nat \<Rightarrow> nat \<Rightarrow> nat \<Rightarrow> nat option \<Rightarrow> eworld \<Rightarrow>
   ((exn + unit) \<times> eworld) option"
where
  "OneTime_bind beh n a callback errback w =
     (case Deferred_add_callback beh n D_events a
             (Function callback) (map_option Function errback) w of
        None \<Rightarrow> None
      | Some (Inl e, w1) \<Rightarrow> Some (Inl e, w1)
      | Some (Inr r, w1) \<Rightarrow> Some (Inr (), w1))"

definition OneTime_fired :: "nat \<Rightarrow> eworld \<Rightarrow> int" where
  "OneTime_fired a w = (if d_called (get_d D_events a w) then 1 else 0)"

definition OneTime_fire ::
  "behaviour \<Rightarrow> nat \<Rightarrow> nat \<Rightarrow> pyval \<Rightarrow> kwargs \<Rightarrow> eworld \<Rightarrow> ((exn + pyval) \<times> eworld) option"
where
  "OneTime_fire beh n a arg kw w =
     (if \<not> o_silenced (onetimes w a)
      then
        if kw \<noteq> [] then Some (Inl ValueError, w)
        else
          (case Deferred_callback beh n D_events a arg w of
             None \<Rightarrow> None
           | Some (Inl e, w1) \<Rightarrow> Some (Inl e, w1)
           | Some (Inr result, w1) \<Rightarrow>
               if isinstance_Deferred result
               then Deferred_add_callback beh n D_events a (Check_of a) (Some (Check_of a)) w1
               else if d_chained_to (get_d D_self a w1) = None
               then Deferred_callback beh n D_self a result w1
               else Some (Inr PyNone, w1))
      else Some (Inr PyNone, w))"

text \<open>
  A run of method calls on one Event: \<open>fire(arg, **kwargs)\<close>, \<open>bind(callback, errback)\<close>
  and \<open>silence()\<close>, one after the other, whatever each returns or raises.
\<close>

datatype event_op = Fire pyval kwargs | Bind nat "nat option" | Silence

fun Event_ops :: "behaviour \<Rightarrow> nat \<Rightarrow> nat \<Rightarrow> event_op list \<Rightarrow> eworld \<Rightarrow> eworld option" where
  "Event_ops beh n a [] w = Some w"
| "Event_ops beh n a (Fire arg kw # ops) w =
     (case Event_fire beh n a arg kw w of
        None \<Rightarrow> None
      | Some (r, w1) \<Rightarrow> Event_ops beh n a ops w1)"
| "Event_ops beh n a (Bind callback errback # ops) w =
     Event_ops beh n a ops (snd (Event_bind a callback errback w))"
| "Event_ops beh n a (Silence # ops) w = Event_ops beh n a ops (Event_silence a w)"

section \<open>EventHandler\<close>

text \<open>The constructor calls \<open>Event()\<close> and \<open>OneTime()\<close>: a new object at the next free address.\<close>

definition alloc_Event :: "eworld \<Rightarrow> nat \<times> eworld" where
  "alloc_Event w =
     (let a = next_id w
      in (a, w\<lparr>events := (events w)(a := new_Event), next_id := Suc a\<rparr>))"

definition alloc_OneTime :: "eworld \<Rightarrow> nat \<times> eworld" where
  "alloc_OneTime w =
     (let a = next_id w
      in (a, w\<lparr>onetimes := (onetimes w)(a := new_OneTime), next_id := Suc a\<rparr>))"

text \<open>
  \<open>one = self.ONE_TIME_EVENTS; if one_time_events: one = set(one); one.update(one_time_events)\<close>.
  The class attribute is a tuple of names, the argument is \<open>None\<close> or a sequence of
  names, truthy when it is not empty.  A Python set enumerates its members once each, in
  an order of its own; the model takes one such order.
\<close>

definition merge_names :: "string list \<Rightarrow> string list option \<Rightarrow> string list" where
  "merge_names cls extra =
     (case extra of
        None \<Rightarrow> cls
      | Some xs \<Rightarrow> if xs = [] then cls else remdups (cls @ xs))"

text \<open>
  \<open>dict(((name, OneTime()) for name in one))\<close> and
  \<open>events.update(((name, Event()) for name in many))\<close>: one new dispatcher per name
  enumerated, stored under the name (a later entry replaces an earlier one).
\<close>

fun make_OneTimes ::
  "string list \<Rightarrow> (string \<times> dispatcher) list \<Rightarrow> eworld \<Rightarrow> (string \<times> dispatcher) list \<times> eworld"
where
  "make_OneTimes [] d w = (d, w)"
| "make_OneTimes (name # names) d w =
     (let (a, w1) = alloc_OneTime w
      in make_OneTimes names (AList.update name (OneTimeAt a) d) w1)"

fun make_Events ::
  "string list \<Rightarrow> (string \<times> dispatcher) list \<Rightarrow> eworld \<Rightarrow> (string \<times> dispatcher) list \<times> eworld"
where
  "make_Events [] d w = (d, w)"
| "make_Events (name # names) d w =
     (let (a, w1) = alloc_Event w
      in make_Events names (AList.update name (EventAt a) d) w1)"

definition EventHandler_init ::
  "nat \<Rightarrow> string list \<Rightarrow> string list \<Rightarrow> string list option \<Rightarrow> string list option \<Rightarrow>
   eworld \<Rightarrow> eworld"
where
  "EventHandler_init self ONE_TIME_EVENTS MANY_TIMES_EVENTS one_time_events many_times_events w =
     (let one = merge_names ONE_TIME_EVENTS one_time_events;
          (evs, w1) = make_OneTimes one [] w;
          many = merge_names MANY_TIMES_EVENTS many_times_events;
          (evs2, w2) = make_Events many evs w1
      in w2\<lparr>registries := (registries w2)(self := evs2)\<rparr>)"

text \<open>The method calls \<open>event.bind(...)\<close>, \<open>event.fire(...)\<close>, \<open>event.silence()\<close>, by class.\<close>

definition dispatcher_bind ::
  "behaviour \<Rightarrow> nat \<Rightarrow> dispatcher \<Rightarrow> nat \<Rightarrow> nat option \<Rightarrow> eworld \<Rightarrow>
   ((exn + unit) \<times> eworld) option"
where
  "dispatcher_bind beh n d callback errback w =
     (case d of
        EventAt a \<Rightarrow> Some (Event_bind a callback errback w)
      | OneTimeAt a \<Rightarrow> OneTime_bind beh n a callback errback w)"

definition dispatcher_fire ::
  "behaviour \<Rightarrow> nat \<Rightarrow> dispatcher \<Rightarrow> pyval \<Rightarrow> kwargs \<Rightarrow> eworld \<Rightarrow>
   ((exn + pyval) \<times> eworld) option"
where
  "dispatcher_fire beh n d arg kw w =
     (case d of
        EventAt a \<Rightarrow> Event_fire beh n a arg kw w
      | OneTimeAt a \<Rightarrow> OneTime_fire beh n a arg kw w)"

definition dispatcher_silence :: "dispatcher \<Rightarrow> eworld \<Rightarrow> eworld" where
  "dispatcher_silence d w =
     (case d of EventAt a \<Rightarrow> Event_silence a w | OneTimeAt a \<Rightarrow> OneTime_silence a w)"

text \<open>The \<open>callback\<close> argument of \<open>bind_event\<close>: one callable, or a list or tuple of them.\<close>

datatype callbacks = Single nat | Several "nat list"

text \<open>\<open>for cbk in callback: event.bind(cbk)\<close>.\<close>

fun bind_each ::
  "behaviour \<Rightarrow> nat \<Rightarrow> dispatcher \<Rightarrow> nat list \<Rightarrow> eworld \<Rightarrow> ((exn + unit) \<times> eworld) option"
where
  "bind_each beh n d [] w = Some (Inr (), w)"
| "bind_each beh n d (cbk # cbks) w =
     (case dispatcher_bind beh n d cbk None w of
        None \<Rightarrow> None
      | Some (Inl e, w1) \<Rightarrow> Some (Inl e, w1)
      | Some (Inr u, w1) \<Rightarrow> bind_each beh n d cbks w1)"

definition bind_event ::
  "behaviour \<Rightarrow> nat \<Rightarrow> nat \<Rightarrow> string \<Rightarrow> callbacks \<Rightarrow> nat option \<Rightarrow> eworld \<Rightarrow>
   ((exn + unit) \<times> eworld) option"
where
  "bind_event beh n self name callback errback w =
     (let w1 = (if map_of (registries w self) name = None
                then let (a, w') = alloc_Event w
                     in w'\<lparr>registries := (registries w')
                           (self := AList.update name (EventAt a) (registries w' self))\<rparr>
                else w)
      in case map_of (registries w1 self) name of
           None \<Rightarrow> Some (Inl KeyError, w1)
         | Some event \<Rightarrow>
             (case callback of
                Several cbks \<Rightarrow>
                  if errback \<noteq> None then Some (Inl AssertionError, w1)
                  else bind_each beh n event cbks w1
              | Single cb \<Rightarrow> dispatcher_bind beh n event cb errback w1))"

text \<open>The format string of the warning, \<open>'Unknown event "%s" for %s'\<close>.\<close>

definition unknown_event_msg :: string where
  "unknown_event_msg = ''Unknown event '' @ [CHR 0x22] @ ''%s'' @ [CHR 0x22] @ '' for %s''"

definition fire_event ::
  "behaviour \<Rightarrow> nat \<Rightarrow> nat \<Rightarrow> string \<Rightarrow> pyval \<Rightarrow> kwargs \<Rightarrow> eworld \<Rightarrow>
   ((exn + pyval) \<times> eworld) option"
where
  "fire_event beh n self name arg kw w =
     (let arg1 = (if arg = PyNone then PyEventHandler self else arg)
      in case map_of (registries w self) name of
           Some d \<Rightarrow>
             (case dispatcher_fire beh n d arg1 kw w of
                None \<Rightarrow> None
              | Some (Inl e, w1) \<Rightarrow>
                  if e = InvalidStateError
                  then Some (Inr PyNone, logger_error (''Event '' @ name @ '' already fired'') w1)
                  else Some (Inl e, w1)
              | Some (Inr v, w1) \<Rightarrow> Some (Inr v, w1))
         | None \<Rightarrow>
             Some (Inr PyNone,
                   logger_warning unknown_event_msg [PyStr name, PyEventHandler self] w))"

definition silence_event :: "nat \<Rightarrow> string \<Rightarrow> eworld \<Rightarrow> eworld" where
  "silence_event self name w =
     (case map_of (registries w self) name of
        None \<Rightarrow> w
      | Some event \<Rightarrow> dispatcher_silence event w)"

text \<open>
  \<open>copy_many_times_events\<close>.  The inner loop, \<open>for callback in event._handlers:
  ev.bind(callback)\<close>, reads the handler list of \<open>other\<close>'s Event by position while
  \<open>ev.bind\<close> runs; when \<open>ev\<close> is that same Event the list grows as fast as it is read.
  The bound \<open>n\<close> limits the iterations (and the nested calls of \<open>OneTime.bind\<close>);
  \<open>None\<close> means that the bound was reached.  The outer loop goes through the entries
  that \<open>other._events\<close> has when the call starts.  A dispatcher object is truthy, so
  \<open>if ev:\<close> asks whether the receiver has the name (\<open>silence_event\<close> and
  \<open>chain_event\<close> rely on the same test for a OneTime).
\<close>

fun copy_handlers ::
  "behaviour \<Rightarrow> nat \<Rightarrow> nat \<Rightarrow> dispatcher \<Rightarrow> nat \<Rightarrow> eworld \<Rightarrow> ((exn + unit) \<times> eworld) option"
where
  "copy_handlers beh 0 e ev i w = None"
| "copy_handlers beh (Suc n) e ev i w =
     (if i < length (e_handlers (events w e))
      then case dispatcher_bind beh n ev (e_handlers (events w e) ! i) None w of
             None \<Rightarrow> None
           | Some (Inl x, w1) \<Rightarrow> Some (Inl x, w1)
           | Some (Inr u, w1) \<Rightarrow> copy_handlers beh n e ev (Suc i) w1
      else Some (Inr (), w))"

fun copy_items ::
  "behaviour \<Rightarrow> nat \<Rightarrow> nat \<Rightarrow> (string \<times> dispatcher) list \<Rightarrow> eworld \<Rightarrow>
   ((exn + unit) \<times> eworld) option"
where
  "copy_items beh n self [] w = Some (Inr (), w)"
| "copy_items beh n self ((name, event) # items) w =
     (case event of
        EventAt e \<Rightarrow>
          (case map_of (registries w self) name of
             None \<Rightarrow> copy_items beh n self items w
           | Some ev \<Rightarrow>
               (case copy_handlers beh n e ev 0 w of
                  None \<Rightarrow> None
                | Some (Inl x, w1) \<Rightarrow> Some (Inl x, w1)
                | Some (Inr u, w1) \<Rightarrow> copy_items beh n self items w1))
      | OneTimeAt b \<Rightarrow> copy_items beh n self items w)"

definition copy_many_times_events ::
  "behaviour \<Rightarrow> nat \<Rightarrow> nat \<Rightarrow> pyval \<Rightarrow> eworld \<Rightarrow> ((exn + unit) \<times> eworld) option"
where
  "copy_many_times_events beh n self other w =
     (case other of
        PyEventHandler b \<Rightarrow> copy_items beh n self (registries w b) w
      | _ \<Rightarrow> Some (Inr (), w))"

section \<open>What copying is to achieve\<close>

text \<open>
  The Event at \<open>s\<close> with the handlers of the Event at \<open>e\<close> appended, and the OneTime at
  \<open>s\<close> with these handlers queued on \<open>_events\<close> as callbacks without errback.
\<close>

definition appended_Event :: "eworld \<Rightarrow> nat \<Rightarrow> nat \<Rightarrow> event" where
  "appended_Event w s e =
     (events w s)\<lparr>e_handlers := e_handlers (events w s) @ e_handlers (events w e)\<rparr>"

definition queued :: "nat list \<Rightarrow> (callable \<times> callable option) list" where
  "queued hs = map (\<lambda>c. (Function c, None)) hs"

definition appended_OneTime :: "eworld \<Rightarrow> nat \<Rightarrow> nat \<Rightarrow> onetime" where
  "appended_OneTime w s e =
     (onetimes w s)\<lparr>o_events := (o_events (onetimes w s))
        \<lparr>d_callbacks := d_callbacks (o_events (onetimes w s)) @ queued (e_handlers (events w e))\<rparr>\<rparr>"

text \<open>
  \<open>S\<close> is the dictionary of the handler that receives, \<open>M\<close> the dictionary of the
  handler copied from.  \<open>copy_ready\<close>: no dispatcher stands under two names of \<open>S\<close>, no
  Event of \<open>M\<close> is an Event of \<open>S\<close>, a OneTime of \<open>S\<close> under a name where \<open>M\<close> has an
  Event is not settled yet, and the bound \<open>fuel\<close> exceeds the length of every handler list
  to copy by two.  \<open>copied\<close>: the store \<open>w'\<close> differs from \<open>w\<close> by the appended handlers
  only.
\<close>

definition copy_ready ::
  "(string \<Rightarrow> dispatcher option) \<Rightarrow> (string \<Rightarrow> dispatcher option) \<Rightarrow> nat \<Rightarrow> eworld \<Rightarrow> bool"
where
  "copy_ready S M fuel w \<longleftrightarrow>
     (\<forall>n1 n2 d. S n1 = Some d \<and> S n2 = Some d \<longrightarrow> n1 = n2) \<and>
     (\<forall>n1 n2 e. M n1 = Some (EventAt e) \<longrightarrow> S n2 \<noteq> Some (EventAt e)) \<and>
     (\<forall>n e s. M n = Some (EventAt e) \<and> S n = Some (OneTimeAt s) \<longrightarrow>
        \<not> d_called (o_events (onetimes w s))) \<and>
     (\<forall>n e. M n = Some (EventAt e) \<longrightarrow> length (e_handlers (events w e)) + 2 \<le> fuel)"

definition copied ::
  "(string \<Rightarrow> dispatcher option) \<Rightarrow> (string \<Rightarrow> dispatcher option) \<Rightarrow> eworld \<Rightarrow> eworld \<Rightarrow> bool"
where
  "copied S M w w' \<longleftrightarrow>
     registries w' = registries w \<and> calls w' = calls w \<and> log w' = log w \<and>
     spawned w' = spawned w \<and> next_id w' = next_id w \<and>
     (\<forall>n s e. S n = Some (EventAt s) \<and> M n = Some (EventAt e) \<longrightarrow>
        events w' s = appended_Event w s e) \<and>
     (\<forall>a. (\<forall>n e. S n = Some (EventAt a) \<longrightarrow> M n \<noteq> Some (EventAt e)) \<longrightarrow>
        events w' a = events w a) \<and>
     (\<forall>n s e. S n = Some (OneTimeAt s) \<and> M n = Some (EventAt e) \<longrightarrow>
        onetimes w' s = appended_OneTime w s e) \<and>
     (\<forall>a. (\<forall>n e. S n = Some (OneTimeAt a) \<longrightarrow> M n \<noteq> Some (EventAt e)) \<longrightarrow>
        onetimes w' a = onetimes w a)"


section \<open>Example stores\<close>

text \<open>
  A Future on loop 0 with two callbacks registered, the same Future after
  \<open>set_result(7)\<close> and after \<open>set_exception\<close>, and a Task at address 0 suspended on the
  pending Future at address 1 (the Task's \<open>_wakeup\<close> is the Future's callback).  A second
  store has the Task at 0 suspended on the Task at 1, which waits for nothing.
\<close>

definition empty_world :: world where
  "empty_world = \<lparr>heap = (\<lambda>_. new_Future 0), ready = (\<lambda>_. []), tb_loggers = (\<lambda>_. None), next_tb = 0\<rparr>"

definition w_pending :: world where
  "w_pending = add_done_callback 0 (Fn 2) (add_done_callback 0 (Fn 1) (Future_init 0 0 empty_world))"

definition w_finished :: world where
  "w_finished = snd (set_result 0 (PyInt 7) w_pending)"

definition w_failed :: world where
  "w_failed = snd (set_exception 0 (OtherError 3) w_pending)"

definition w_task :: world where
  "w_task =
     upd_future 0 (\<lambda>f. f\<lparr>f_task := Some \<lparr>fut_waiter = Some 1, must_cancel = False\<rparr>\<rparr>)
       (add_done_callback 1 (Task_wakeup 0) (Future_init 1 0 (Task_init 0 0 empty_world)))"

definition w_nested :: world where
  "w_nested =
     upd_future 0 (\<lambda>f. f\<lparr>f_task := Some \<lparr>fut_waiter = Some 1, must_cancel = False\<rparr>\<rparr>)
       (add_done_callback 1 (Task_wakeup 0) (Task_init 1 0 (Task_init 0 0 empty_world)))"

text \<open>
  An event store with nothing bound; three user functions, of which 2 raises and 3
  returns a generator; and the Event at address 0 with 1, 2 and 3 bound in this order.
  Two more behaviours of the functions: in \<open>beh_stop\<close> function 2 raises \<open>_StopError\<close>,
  in \<open>beh_rebind\<close> function 1 binds function 4 to the Event at 0 and function 2 raises
  an \<open>Exception\<close>.
\<close>

definition empty_eworld :: eworld where
  "empty_eworld =
     \<lparr>events = (\<lambda>_. new_Event),
      onetimes = (\<lambda>_. new_OneTime),
      registries = (\<lambda>_. []), next_id = 0, log = [], spawned = [], calls = []\<rparr>"

definition beh_abc :: behaviour where
  "beh_abc k arg kw w =
     (if k = 2 then (Raised (OtherError 7), w)
      else if k = 3 then (Returned (PyGenerator 5), w)
      else (Returned PyNone, w))"

definition beh_stop :: behaviour where
  "beh_stop k arg kw w =
     (if k = 2 then (Raised StopError, w) else (Returned PyNone, w))"

definition beh_rebind :: behaviour where
  "beh_rebind k arg kw w =
     (if k = 1 then (Returned PyNone, snd (Event_bind 0 4 None w))
      else if k = 2 then (Raised (OtherError 7), w)
      else (Returned PyNone, w))"

definition w_abc :: eworld where
  "w_abc =
     snd (Event_bind 0 3 None (snd (Event_bind 0 2 None (snd (Event_bind 0 1 None empty_eworld)))))"

text \<open>
  An EventHandler at address 0 whose class names \<open>start\<close> and \<open>finish\<close> as one-time
  events and \<open>data\<close> as a many-times event, constructed with \<open>start\<close> as an extra
  many-times event.
\<close>

definition w_handler :: eworld where
  "w_handler =
     EventHandler_init 0 [''start'', ''finish''] [''data''] None (Some [''start'']) empty_eworld"

text \<open>
  The same handler with the user functions 1 and 3 bound to \<open>finish\<close>, and then with
  \<open>finish\<close> fired once with the value \<open>v1\<close>.  \<open>after r w\<close> is the store a call leaves
  (\<open>w\<close> if it did not come to an end).
\<close>

definition after :: "('a \<times> eworld) option \<Rightarrow> eworld \<Rightarrow> eworld" where
  "after r w = (case r of Some (x, w') \<Rightarrow> w' | None \<Rightarrow> w)"

definition w_bound :: eworld where
  "w_bound = after (bind_event beh_abc 9 0 ''finish'' (Several [1, 3]) None w_handler) w_handler"

definition w_fired :: eworld where
  "w_fired = after (fire_event beh_abc 9 0 ''finish'' (PyStr ''v1'') [] w_bound) w_bound"

text \<open>
  Three handlers in one store.  Handler 0 is the one above, with function 3 bound to
  \<open>data\<close>.  Handler 1 has the one-time event \<open>finish\<close> and the many-times events
  \<open>data\<close>, with functions 1 and 2 bound, and \<open>extra\<close>, with function 3 bound.  Handler 2
  has \<open>finish\<close> as a many-times event, with function 1 bound.
\<close>

definition w_two :: eworld where
  "w_two =
     after (bind_event beh_abc 9 2 ''finish'' (Single 1) None
      (after (bind_event beh_abc 9 0 ''data'' (Single 3) None
       (after (bind_event beh_abc 9 1 ''extra'' (Single 3) None
        (after (bind_event beh_abc 9 1 ''data'' (Several [1, 2]) None
         (EventHandler_init 2 [] [''finish''] None None
           (EventHandler_init 1 [''finish''] [''data'', ''extra''] None None w_handler)))
         w_handler)) w_handler)) w_handler)) w_handler"


section \<open>Lemmas about the asyncio fallback\<close>

lemma schedule_each_eq:
  "schedule_each l self cbs w =
     w\<lparr>ready := (ready w)(l := ready w l @ map (\<lambda>cb. mk_handle cb [self]) cbs)\<rparr>"
  by (induction cbs arbitrary: w) (simp_all add: call_soon_def Let_def)

lemma clear_empty_callbacks:
  "f_callbacks f = [] \<Longrightarrow> f\<lparr>f_callbacks := []\<rparr> = f"
  by (cases f) simp

lemma schedule_callbacks_eq:
  "schedule_callbacks a w =
     w\<lparr>heap := (heap w)(a := (heap w a)\<lparr>f_callbacks := []\<rparr>),
       ready := (ready w)(f_loop (heap w a) :=
                  ready w (f_loop (heap w a)) @ scheduled a (f_callbacks (heap w a)))\<rparr>"
  by (simp add: schedule_callbacks_def schedule_each_eq upd_future_def Let_def
      clear_empty_callbacks scheduled_def)

lemma Future_cancel_eq:
  "Future_cancel a w =
     (if f_state (heap w a) \<noteq> PENDING then (False, w)
      else (True,
        w\<lparr>heap := (heap w)(a := (heap w a)\<lparr>f_state := CANCELLED, f_callbacks := []\<rparr>),
          ready := (ready w)(f_loop (heap w a) :=
                     ready w (f_loop (heap w a)) @ scheduled a (f_callbacks (heap w a)))\<rparr>))"
  by (simp add: Future_cancel_def schedule_callbacks_eq upd_future_def Let_def)

lemma set_result_eq:
  "set_result a v w =
     (if f_state (heap w a) \<noteq> PENDING then (Inl InvalidStateError, w)
      else (Inr (),
        w\<lparr>heap := (heap w)(a := (heap w a)\<lparr>f_result := v, f_state := FINISHED, f_callbacks := []\<rparr>),
          ready := (ready w)(f_loop (heap w a) :=
                     ready w (f_loop (heap w a)) @ scheduled a (f_callbacks (heap w a)))\<rparr>))"
  by (simp add: set_result_def schedule_callbacks_eq upd_future_def Let_def)

lemma set_exception_eq:
  "set_exception a e w =
     (if f_state (heap w a) \<noteq> PENDING then (Inl InvalidStateError, w)
      else (Inr (),
        w\<lparr>tb_loggers := (tb_loggers w)(next_tb w := Some e),
          next_tb := Suc (next_tb w),
          heap := (heap w)(a := (heap w a)\<lparr>f_exception := Some e, f_state := FINISHED,
                                            f_callbacks := [], f_tb_logger := Some (next_tb w)\<rparr>),
          ready := (ready w)(f_loop (heap w a) :=
                     ready w (f_loop (heap w a)) @ scheduled a (f_callbacks (heap w a)) @
                     [mk_handle (TbLogger_activate (next_tb w)) []])\<rparr>))"
  by (simp add: set_exception_def schedule_callbacks_eq upd_future_def Let_def call_soon_def)

lemma clear_tb_logger_fields:
  "f_state (heap (clear_tb_logger a w) b) = f_state (heap w b)"
  "f_result (heap (clear_tb_logger a w) b) = f_result (heap w b)"
  "f_exception (heap (clear_tb_logger a w) b) = f_exception (heap w b)"
  "f_callbacks (heap (clear_tb_logger a w) b) = f_callbacks (heap w b)"
  "ready (clear_tb_logger a w) = ready w"
  by (simp_all add: clear_tb_logger_def upd_future_def split: option.splits)

lemma fold_add_done_callback:
  "f_state (heap w a) = PENDING \<Longrightarrow>
   fold (add_done_callback a) cbs w =
     w\<lparr>heap := (heap w)(a := (heap w a)\<lparr>f_callbacks := f_callbacks (heap w a) @ cbs\<rparr>)\<rparr>"
proof (induction cbs arbitrary: w)
  case Nil
  then show ?case by simp
next
  case (Cons cb cbs)
  let ?w1 = "add_done_callback a cb w"
  have w1: "?w1 = w\<lparr>heap := (heap w)(a := (heap w a)\<lparr>f_callbacks := f_callbacks (heap w a) @ [cb]\<rparr>)\<rparr>"
    using Cons.prems by (simp add: add_done_callback_def upd_future_def)
  then have "f_state (heap ?w1 a) = PENDING"
    using Cons.prems by simp
  from Cons.IH [OF this]
  have "fold (add_done_callback a) cbs ?w1 =
          ?w1\<lparr>heap := (heap ?w1)(a := (heap ?w1 a)\<lparr>f_callbacks := f_callbacks (heap ?w1 a) @ cbs\<rparr>)\<rparr>" .
  also have "\<dots> = w\<lparr>heap := (heap w)(a := (heap w a)\<lparr>f_callbacks := f_callbacks (heap w a) @ cb # cbs\<rparr>)\<rparr>"
    by (simp add: w1)
  finally show ?case by (simp only: fold.simps comp_apply)
qed

section \<open>Lemmas about events\<close>

lemma silenced_ops:
  "e_silenced (events w a) \<Longrightarrow>
   \<exists>w'. Event_ops beh n a ops w = Some w' \<and> e_silenced (events w' a) \<and>
        e_fired (events w' a) = e_fired (events w a) \<and> calls w' = calls w \<and>
        log w' = log w \<and> spawned w' = spawned w"
proof (induction ops arbitrary: w)
  case Nil
  then show ?case by simp
next
  case (Cons op ops)
  show ?case
  proof (cases op)
    case (Fire arg kw)
    with Cons show ?thesis by (simp add: Event_fire_def)
  next
    case (Bind callback errback)
    let ?w1 = "snd (Event_bind a callback errback w)"
    have 1: "e_silenced (events ?w1 a)" "e_fired (events ?w1 a) = e_fired (events w a)"
      "calls ?w1 = calls w" "log ?w1 = log w" "spawned ?w1 = spawned w"
      using Cons.prems by (simp_all add: Event_bind_def upd_event_def)
    from Cons.IH [OF 1(1), of ] 1 Bind show ?thesis by simp
  next
    case Silence
    let ?w1 = "Event_silence a w"
    have 1: "e_silenced (events ?w1 a)" "e_fired (events ?w1 a) = e_fired (events w a)"
      "calls ?w1 = calls w" "log ?w1 = log w" "spawned ?w1 = spawned w"
      using Cons.prems by (simp_all add: Event_silence_def upd_event_def)
    from Cons.IH [OF 1(1)] 1 Silence show ?thesis by simp
  qed
qed

lemma set_merge_names:
  "set (merge_names cls extra) = set cls \<union> (case extra of None \<Rightarrow> {} | Some xs \<Rightarrow> set xs)"
  by (auto simp add: merge_names_def split: option.splits)

lemma make_OneTimes_result:
  "make_OneTimes names d w = (d', w') \<Longrightarrow>
   (name \<in> set names \<longrightarrow>
      (\<exists>a. map_of d' name = Some (OneTimeAt a) \<and> next_id w \<le> a \<and> a < next_id w' \<and>
           onetimes w' a = new_OneTime)) \<and>
   (name \<notin> set names \<longrightarrow> map_of d' name = map_of d name) \<and>
   next_id w \<le> next_id w' \<and>
   (\<forall>a < next_id w. onetimes w' a = onetimes w a) \<and>
   events w' = events w \<and> registries w' = registries w \<and> log w' = log w \<and>
   calls w' = calls w \<and> spawned w' = spawned w"
proof (induction names arbitrary: d w)
  case Nil
  then show ?case by simp
next
  case (Cons x xs)
  let ?a = "next_id w"
  let ?w1 = "w\<lparr>onetimes := (onetimes w)(?a := new_OneTime), next_id := Suc ?a\<rparr>"
  let ?d1 = "AList.update x (OneTimeAt ?a) d"
  from Cons.prems have rec: "make_OneTimes xs ?d1 ?w1 = (d', w')"
    by (simp add: alloc_OneTime_def Let_def)
  note ih = Cons.IH [OF rec]
  show ?case
  proof (cases "name \<in> set xs")
    case True
    with ih show ?thesis by auto
  next
    case False
    with ih have m: "map_of d' name = map_of ?d1 name" by simp
    from ih have keep: "onetimes w' ?a = onetimes ?w1 ?a" by simp
    show ?thesis
    proof (cases "name = x")
      case True
      with m keep ih False show ?thesis by (auto simp add: update_conv')
    next
      case neq: False
      with m ih False show ?thesis by (auto simp add: update_conv')
    qed
  qed
qed

lemma make_Events_result:
  "make_Events names d w = (d', w') \<Longrightarrow>
   (name \<in> set names \<longrightarrow>
      (\<exists>a. map_of d' name = Some (EventAt a) \<and> next_id w \<le> a \<and> a < next_id w' \<and>
           events w' a = new_Event)) \<and>
   (name \<notin> set names \<longrightarrow> map_of d' name = map_of d name) \<and>
   next_id w \<le> next_id w' \<and>
   (\<forall>a < next_id w. events w' a = events w a) \<and>
   onetimes w' = onetimes w \<and> registries w' = registries w \<and> log w' = log w \<and>
   calls w' = calls w \<and> spawned w' = spawned w"
proof (induction names arbitrary: d w)
  case Nil
  then show ?case by simp
next
  case (Cons x xs)
  let ?a = "next_id w"
  let ?w1 = "w\<lparr>events := (events w)(?a := new_Event), next_id := Suc ?a\<rparr>"
  let ?d1 = "AList.update x (EventAt ?a) d"
  from Cons.prems have rec: "make_Events xs ?d1 ?w1 = (d', w')"
    by (simp add: alloc_Event_def Let_def)
  note ih = Cons.IH [OF rec]
  show ?case
  proof (cases "name \<in> set xs")
    case True
    with ih show ?thesis by auto
  next
    case False
    with ih have m: "map_of d' name = map_of ?d1 name" by simp
    from ih have keep: "events w' ?a = events ?w1 ?a" by simp
    show ?thesis
    proof (cases "name = x")
      case True
      with m keep ih False show ?thesis by (auto simp add: update_conv')
    next
      case neq: False
      with m ih False show ?thesis by (auto simp add: update_conv')
    qed
  qed
qed

lemma w_handler_eq:
  "w_handler =
     \<lparr>events = (\<lambda>_. new_Event), onetimes = (\<lambda>_. new_OneTime),
      registries = (\<lambda>_. [])(0 := [(''start'', EventAt 3), (''finish'', OneTimeAt 1), (''data'', EventAt 2)]),
      next_id = 4, log = [], spawned = [], calls = []\<rparr>"
  by (simp add: w_handler_def EventHandler_init_def merge_names_def alloc_OneTime_def
      alloc_Event_def empty_eworld_def Let_def eval_nat_numeral fun_eq_iff)

lemma w_bound_eq:
  "w_bound =
     \<lparr>events = (\<lambda>_. new_Event),
      onetimes = (\<lambda>_. new_OneTime)
        (1 := new_OneTime\<lparr>o_events := new_Deferred\<lparr>d_callbacks :=
               [(Function 1, None), (Function 3, None)]\<rparr>\<rparr>),
      registries = (\<lambda>_. [])(0 := [(''start'', EventAt 3), (''finish'', OneTimeAt 1), (''data'', EventAt 2)]),
      next_id = 4, log = [], spawned = [], calls = []\<rparr>"
  by (simp add: w_bound_def after_def w_handler_eq bind_event_def dispatcher_bind_def
      OneTime_bind_def Deferred_add_callback_def get_d_def upd_d_def new_OneTime_def
      new_Deferred_def eval_nat_numeral Let_def)

lemma w_fired_eq:
  "w_fired =
     \<lparr>events = (\<lambda>_. new_Event),
      onetimes = (\<lambda>_. new_OneTime)
        (1 := \<lparr>o_silenced = False,
               o_deferred = new_Deferred\<lparr>d_called := True, d_result := PyStr ''v1''\<rparr>,
               o_events = new_Deferred\<lparr>d_called := True, d_result := PyStr ''v1''\<rparr>\<rparr>),
      registries = (\<lambda>_. [])(0 := [(''start'', EventAt 3), (''finish'', OneTimeAt 1), (''data'', EventAt 2)]),
      next_id = 4, log = [], spawned = [],
      calls = [(1, PyStr ''v1'', []), (3, PyStr ''v1'', [])]\<rparr>"
  by (simp add: w_fired_def after_def w_bound_eq fire_event_def dispatcher_fire_def
      OneTime_fire_def Deferred_callback_def get_d_def upd_d_def new_OneTime_def
      new_Deferred_def eval_nat_numeral Let_def call_function_def beh_abc_def
      isinstance_Deferred_def)


lemma append_no_handlers: "ev\<lparr>e_handlers := e_handlers ev @ []\<rparr> = ev"
  by (cases ev) simp

lemma append_no_callbacks: "ot\<lparr>o_events := (o_events ot)\<lparr>d_callbacks := d_callbacks (o_events ot) @ []\<rparr>\<rparr> = ot"
  by (cases ot) simp

lemma copy_handlers_Event:
  "s \<noteq> e \<Longrightarrow> i \<le> length (e_handlers (events w e)) \<Longrightarrow>
   length (e_handlers (events w e)) - i < n \<Longrightarrow>
   copy_handlers beh n e (EventAt s) i w =
     Some (Inr (),
       w\<lparr>events := (events w)(s := (events w s)
            \<lparr>e_handlers := e_handlers (events w s) @ drop i (e_handlers (events w e))\<rparr>)\<rparr>)"
proof (induction n arbitrary: i w)
  case 0
  then show ?case by simp
next
  case (Suc n)
  let ?hs = "e_handlers (events w e)"
  show ?case
  proof (cases "i < length ?hs")
    case False
    with Suc.prems have "i = length ?hs" by simp
    then show ?thesis by (simp add: append_no_handlers)
  next
    case True
    let ?w1 = "w\<lparr>events := (events w)(s := (events w s)\<lparr>e_handlers := e_handlers (events w s) @ [?hs ! i]\<rparr>)\<rparr>"
    have b: "dispatcher_bind beh n (EventAt s) (?hs ! i) None w = Some (Inr (), ?w1)"
      by (simp add: dispatcher_bind_def Event_bind_def upd_event_def)
    have same: "e_handlers (events ?w1 e) = ?hs" using Suc.prems(1) by simp
    have "copy_handlers beh (Suc n) e (EventAt s) i w =
          copy_handlers beh n e (EventAt s) (Suc i) ?w1"
      using True b by simp
    also have "\<dots> =
      Some (Inr (),
       ?w1\<lparr>events := (events ?w1)(s := (events ?w1 s)
            \<lparr>e_handlers := e_handlers (events ?w1 s) @ drop (Suc i) (e_handlers (events ?w1 e))\<rparr>)\<rparr>)"
      using Suc.prems True by (intro Suc.IH) (simp_all only: same, simp_all)
    also have "\<dots> = Some (Inr (),
       w\<lparr>events := (events w)(s := (events w s)
            \<lparr>e_handlers := e_handlers (events w s) @ drop i ?hs\<rparr>)\<rparr>)"
      using Suc.prems(1) True by (simp add: Cons_nth_drop_Suc [symmetric])
    finally show ?thesis .
  qed
qed

lemma OneTime_bind_pending:
  "\<not> d_called (o_events (onetimes w s)) \<Longrightarrow>
   OneTime_bind beh (Suc (Suc n)) s c None w =
     Some (Inr (),
       w\<lparr>onetimes := (onetimes w)(s := (onetimes w s)\<lparr>o_events := (o_events (onetimes w s))
            \<lparr>d_callbacks := d_callbacks (o_events (onetimes w s)) @ [(Function c, None)]\<rparr>\<rparr>)\<rparr>)"
  by (simp add: OneTime_bind_def Deferred_add_callback_def get_d_def upd_d_def)

lemma copy_handlers_OneTime:
  "\<not> d_called (o_events (onetimes w s)) \<Longrightarrow> i \<le> length (e_handlers (events w e)) \<Longrightarrow>
   length (e_handlers (events w e)) - i + 2 \<le> n \<Longrightarrow>
   copy_handlers beh n e (OneTimeAt s) i w =
     Some (Inr (),
       w\<lparr>onetimes := (onetimes w)(s := (onetimes w s)\<lparr>o_events := (o_events (onetimes w s))
            \<lparr>d_callbacks := d_callbacks (o_events (onetimes w s)) @
               queued (drop i (e_handlers (events w e)))\<rparr>\<rparr>)\<rparr>)"
proof (induction n arbitrary: i w)
  case 0
  then show ?case by simp
next
  case (Suc n)
  let ?hs = "e_handlers (events w e)"
  show ?case
  proof (cases "i < length ?hs")
    case False
    with Suc.prems have "i = length ?hs" by simp
    then show ?thesis by (simp add: append_no_callbacks queued_def)
  next
    case True
    let ?w1 = "w\<lparr>onetimes := (onetimes w)(s := (onetimes w s)\<lparr>o_events := (o_events (onetimes w s))
            \<lparr>d_callbacks := d_callbacks (o_events (onetimes w s)) @ [(Function (?hs ! i), None)]\<rparr>\<rparr>)\<rparr>"
    from Suc.prems True obtain m where n: "n = Suc (Suc m)"
      by (cases n; cases "n - 1") auto
    have b: "dispatcher_bind beh n (OneTimeAt s) (?hs ! i) None w = Some (Inr (), ?w1)"
      using Suc.prems(1) by (simp add: dispatcher_bind_def n OneTime_bind_pending)
    have same: "e_handlers (events ?w1 e) = ?hs" by simp
    have pend: "\<not> d_called (o_events (onetimes ?w1 s))" using Suc.prems(1) by simp
    have "copy_handlers beh (Suc n) e (OneTimeAt s) i w =
          copy_handlers beh n e (OneTimeAt s) (Suc i) ?w1"
      using True b by simp
    also have "\<dots> =
      Some (Inr (),
       ?w1\<lparr>onetimes := (onetimes ?w1)(s := (onetimes ?w1 s)\<lparr>o_events := (o_events (onetimes ?w1 s))
            \<lparr>d_callbacks := d_callbacks (o_events (onetimes ?w1 s)) @
               queued (drop (Suc i) (e_handlers (events ?w1 e)))\<rparr>\<rparr>)\<rparr>)"
      using Suc.prems True pend by (intro Suc.IH) (simp_all only: same, simp_all)
    also have "\<dots> = Some (Inr (),
       w\<lparr>onetimes := (onetimes w)(s := (onetimes w s)\<lparr>o_events := (o_events (onetimes w s))
            \<lparr>d_callbacks := d_callbacks (o_events (onetimes w s)) @
               queued (drop i ?hs)\<rparr>\<rparr>)\<rparr>)"
      using True by (simp add: Cons_nth_drop_Suc [symmetric] queued_def)
    finally show ?thesis .
  qed
qed


lemma ready_skip:
  assumes "copy_ready S M fuel w"
    and rel: "\<And>n e. (M' n = Some (EventAt e)) = (n \<noteq> name \<and> M n = Some (EventAt e))"
  shows "copy_ready S M' fuel w"
  using assms(1) unfolding copy_ready_def rel by blast

lemma copied_skip:
  assumes c: "copied S M' w w'"
    and rel: "\<And>n e. (M' n = Some (EventAt e)) = (n \<noteq> name \<and> M n = Some (EventAt e))"
    and skip: "S name = None \<or> (\<forall>e. M name \<noteq> Some (EventAt e))"
  shows "copied S M w w'"
proof -
  have eq: "(M n = Some (EventAt e)) = (M' n = Some (EventAt e))" if "S n = Some d" for n e d
    using that skip rel by auto
  have A: "events w' s = appended_Event w s e"
    if "S n = Some (EventAt s)" "M n = Some (EventAt e)" for n s e
    using that c eq [of n "EventAt s" e] unfolding copied_def by blast
  have B: "events w' a = events w a"
    if "\<forall>n e. S n = Some (EventAt a) \<longrightarrow> M n \<noteq> Some (EventAt e)" for a
  proof -
    from that have "\<forall>n e. S n = Some (EventAt a) \<longrightarrow> M' n \<noteq> Some (EventAt e)"
      using rel by blast
    with c show ?thesis unfolding copied_def by blast
  qed
  have C: "onetimes w' s = appended_OneTime w s e"
    if "S n = Some (OneTimeAt s)" "M n = Some (EventAt e)" for n s e
    using that c eq [of n "OneTimeAt s" e] unfolding copied_def by blast
  have D: "onetimes w' a = onetimes w a"
    if "\<forall>n e. S n = Some (OneTimeAt a) \<longrightarrow> M n \<noteq> Some (EventAt e)" for a
  proof -
    from that have "\<forall>n e. S n = Some (OneTimeAt a) \<longrightarrow> M' n \<noteq> Some (EventAt e)"
      using rel by blast
    with c show ?thesis unfolding copied_def by blast
  qed
  from c have "registries w' = registries w \<and> calls w' = calls w \<and> log w' = log w \<and>
     spawned w' = spawned w \<and> next_id w' = next_id w"
    unfolding copied_def by blast
  with A B C D show ?thesis unfolding copied_def by blast
qed

lemma copied_Event_step:
  assumes c: "copied S M' w1 w'"
    and rel: "\<And>n e. (M' n = Some (EventAt e)) = (n \<noteq> name \<and> M n = Some (EventAt e))"
    and S: "S name = Some (EventAt s)" and M: "M name = Some (EventAt e0)"
    and inj: "\<forall>n1 n2 d. S n1 = Some d \<and> S n2 = Some d \<longrightarrow> n1 = n2"
    and disj: "\<forall>n1 n2 e. M n1 = Some (EventAt e) \<longrightarrow> S n2 \<noteq> Some (EventAt e)"
    and w1: "w1 = w\<lparr>events := (events w)(s := appended_Event w s e0)\<rparr>"
  shows "copied S M w w'"
proof -
  have src: "e \<noteq> s" if "M n = Some (EventAt e)" for n e
    using that disj S by blast
  have ev1: "events w1 a = events w a" if "a \<noteq> s" for a
    using that by (simp add: w1)
  have ot1: "onetimes w1 = onetimes w" by (simp add: w1)
  have A: "events w' s' = appended_Event w s' e"
    if h: "S n = Some (EventAt s')" "M n = Some (EventAt e)" for n s' e
  proof (cases "n = name")
    case True
    with h S M have [simp]: "s' = s" "e = e0" by simp_all
    have "\<forall>n e. S n = Some (EventAt s) \<longrightarrow> M' n \<noteq> Some (EventAt e)"
      using inj S rel by blast
    with c have "events w' s = events w1 s" unfolding copied_def by blast
    then show ?thesis by (simp add: w1)
  next
    case False
    with h rel have "M' n = Some (EventAt e)" by blast
    with c h have 1: "events w' s' = appended_Event w1 s' e" unfolding copied_def by blast
    from False h S inj have "s' \<noteq> s" by blast
    moreover from h(2) have "e \<noteq> s" by (rule src)
    ultimately show ?thesis using 1 by (simp add: appended_Event_def ev1)
  qed
  have B: "events w' a = events w a"
    if h: "\<forall>n e. S n = Some (EventAt a) \<longrightarrow> M n \<noteq> Some (EventAt e)" for a
  proof -
    from h S M have "a \<noteq> s" by blast
    from h have "\<forall>n e. S n = Some (EventAt a) \<longrightarrow> M' n \<noteq> Some (EventAt e)"
      using rel by blast
    with c have "events w' a = events w1 a" unfolding copied_def by blast
    with \<open>a \<noteq> s\<close> show ?thesis by (simp add: ev1)
  qed
  have C: "onetimes w' s' = appended_OneTime w s' e"
    if h: "S n = Some (OneTimeAt s')" "M n = Some (EventAt e)" for n s' e
  proof -
    from h S have "n \<noteq> name" by auto
    with h rel have "M' n = Some (EventAt e)" by blast
    with c h have "onetimes w' s' = appended_OneTime w1 s' e" unfolding copied_def by blast
    moreover from h(2) have "e \<noteq> s" by (rule src)
    ultimately show ?thesis by (simp add: appended_OneTime_def ot1 ev1)
  qed
  have D: "onetimes w' a = onetimes w a"
    if h: "\<forall>n e. S n = Some (OneTimeAt a) \<longrightarrow> M n \<noteq> Some (EventAt e)" for a
  proof -
    from h have "\<forall>n e. S n = Some (OneTimeAt a) \<longrightarrow> M' n \<noteq> Some (EventAt e)"
      using rel by blast
    with c have "onetimes w' a = onetimes w1 a" unfolding copied_def by blast
    then show ?thesis by (simp add: ot1)
  qed
  from c have "registries w' = registries w \<and> calls w' = calls w \<and> log w' = log w \<and>
     spawned w' = spawned w \<and> next_id w' = next_id w"
    unfolding copied_def by (simp add: w1)
  with A B C D show ?thesis unfolding copied_def by blast
qed

lemma copied_OneTime_step:
  assumes c: "copied S M' w1 w'"
    and rel: "\<And>n e. (M' n = Some (EventAt e)) = (n \<noteq> name \<and> M n = Some (EventAt e))"
    and S: "S name = Some (OneTimeAt s)" and M: "M name = Some (EventAt e0)"
    and inj: "\<forall>n1 n2 d. S n1 = Some d \<and> S n2 = Some d \<longrightarrow> n1 = n2"
    and w1: "w1 = w\<lparr>onetimes := (onetimes w)(s := appended_OneTime w s e0)\<rparr>"
  shows "copied S M w w'"
proof -
  have ot1: "onetimes w1 a = onetimes w a" if "a \<noteq> s" for a
    using that by (simp add: w1)
  have ev1: "events w1 = events w" by (simp add: w1)
  have A: "events w' s' = appended_Event w s' e"
    if h: "S n = Some (EventAt s')" "M n = Some (EventAt e)" for n s' e
  proof -
    from h S have "n \<noteq> name" by auto
    with h rel have "M' n = Some (EventAt e)" by blast
    with c h have "events w' s' = appended_Event w1 s' e" unfolding copied_def by blast
    then show ?thesis by (simp add: appended_Event_def ev1)
  qed
  have B: "events w' a = events w a"
    if h: "\<forall>n e. S n = Some (EventAt a) \<longrightarrow> M n \<noteq> Some (EventAt e)" for a
  proof -
    from h have "\<forall>n e. S n = Some (EventAt a) \<longrightarrow> M' n \<noteq> Some (EventAt e)"
      using rel by blast
    with c have "events w' a = events w1 a" unfolding copied_def by blast
    then show ?thesis by (simp add: ev1)
  qed
  have C: "onetimes w' s' = appended_OneTime w s' e"
    if h: "S n = Some (OneTimeAt s')" "M n = Some (EventAt e)" for n s' e
  proof (cases "n = name")
    case True
    with h S M have [simp]: "s' = s" "e = e0" by simp_all
    have "\<forall>n e. S n = Some (OneTimeAt s) \<longrightarrow> M' n \<noteq> Some (EventAt e)"
      using inj S rel by blast
    with c have "onetimes w' s = onetimes w1 s" unfolding copied_def by blast
    then show ?thesis by (simp add: w1)
  next
    case False
    with h rel have "M' n = Some (EventAt e)" by blast
    with c h have 1: "onetimes w' s' = appended_OneTime w1 s' e" unfolding copied_def by blast
    from False h S inj have "s' \<noteq> s" by blast
    then show ?thesis using 1 by (simp add: appended_OneTime_def ot1 ev1)
  qed
  have D: "onetimes w' a = onetimes w a"
    if h: "\<forall>n e. S n = Some (OneTimeAt a) \<longrightarrow> M n \<noteq> Some (EventAt e)" for a
  proof -
    from h S M have "a \<noteq> s" by blast
    from h have "\<forall>n e. S n = Some (OneTimeAt a) \<longrightarrow> M' n \<noteq> Some (EventAt e)"
      using rel by blast
    with c have "onetimes w' a = onetimes w1 a" unfolding copied_def by blast
    with \<open>a \<noteq> s\<close> show ?thesis by (simp add: ot1)
  qed
  from c have "registries w' = registries w \<and> calls w' = calls w \<and> log w' = log w \<and>
     spawned w' = spawned w \<and> next_id w' = next_id w"
    unfolding copied_def by (simp add: w1)
  with A B C D show ?thesis unfolding copied_def by blast
qed


lemma ready_step_Event:
  assumes r: "copy_ready S M fuel w"
    and rel: "\<And>n e. (M' n = Some (EventAt e)) = (n \<noteq> name \<and> M n = Some (EventAt e))"
    and S: "S name = Some (EventAt s)"
    and w1: "w1 = w\<lparr>events := (events w)(s := ev)\<rparr>"
  shows "copy_ready S M' fuel w1"
proof -
  have src: "e \<noteq> s" if "M n = Some (EventAt e)" for n e
    using that r S unfolding copy_ready_def by blast
  have len: "length (e_handlers (events w1 e)) + 2 \<le> fuel" if "M' n = Some (EventAt e)" for n e
  proof -
    from that rel have m: "M n = Some (EventAt e)" by blast
    then have "e \<noteq> s" by (rule src)
    then have "events w1 e = events w e" by (simp add: w1)
    with m r show ?thesis unfolding copy_ready_def by auto
  qed
  have unf: "\<not> d_called (o_events (onetimes w1 c))"
    if "M' n = Some (EventAt e)" "S n = Some (OneTimeAt c)" for n e c
  proof -
    from that rel have "M n = Some (EventAt e)" by blast
    with that r have "\<not> d_called (o_events (onetimes w c))" unfolding copy_ready_def by blast
    then show ?thesis by (simp add: w1)
  qed
  have disj: "S n2 \<noteq> Some (EventAt e)" if "M' n1 = Some (EventAt e)" for n1 n2 e
  proof -
    from that rel have "M n1 = Some (EventAt e)" by blast
    with r show ?thesis unfolding copy_ready_def by blast
  qed
  from r have "\<forall>n1 n2 d. S n1 = Some d \<and> S n2 = Some d \<longrightarrow> n1 = n2"
    unfolding copy_ready_def by blast
  with len unf disj show ?thesis unfolding copy_ready_def by blast
qed

lemma ready_step_OneTime:
  assumes r: "copy_ready S M fuel w"
    and rel: "\<And>n e. (M' n = Some (EventAt e)) = (n \<noteq> name \<and> M n = Some (EventAt e))"
    and w1: "w1 = w\<lparr>onetimes := (onetimes w)(s := appended_OneTime w s e0)\<rparr>"
  shows "copy_ready S M' fuel w1"
proof -
  have called: "d_called (o_events (onetimes w1 c)) = d_called (o_events (onetimes w c))" for c
    by (simp add: w1 appended_OneTime_def)
  have len: "length (e_handlers (events w1 e)) + 2 \<le> fuel" if "M' n = Some (EventAt e)" for n e
  proof -
    from that rel have m: "M n = Some (EventAt e)" by blast
    with r show ?thesis unfolding copy_ready_def by (auto simp add: w1)
  qed
  have unf: "\<not> d_called (o_events (onetimes w1 c))"
    if "M' n = Some (EventAt e)" "S n = Some (OneTimeAt c)" for n e c
  proof -
    from that rel have "M n = Some (EventAt e)" by blast
    with that r have "\<not> d_called (o_events (onetimes w c))" unfolding copy_ready_def by blast
    then show ?thesis by (simp add: called)
  qed
  have disj: "S n2 \<noteq> Some (EventAt e)" if "M' n1 = Some (EventAt e)" for n1 n2 e
  proof -
    from that rel have "M n1 = Some (EventAt e)" by blast
    with r show ?thesis unfolding copy_ready_def by blast
  qed
  from r have "\<forall>n1 n2 d. S n1 = Some d \<and> S n2 = Some d \<longrightarrow> n1 = n2"
    unfolding copy_ready_def by blast
  with len unf disj show ?thesis unfolding copy_ready_def by blast
qed

lemma copy_items_copied:
  "distinct (map fst items) \<Longrightarrow>
   copy_ready (map_of (registries w self)) (map_of items) fuel w \<Longrightarrow>
   \<exists>w'. copy_items beh fuel self items w = Some (Inr (), w') \<and>
        copied (map_of (registries w self)) (map_of items) w w'"
proof (induction items arbitrary: w)
  case Nil
  then show ?case by (simp add: copied_def)
next
  case (Cons item items)
  obtain name d where item: "item = (name, d)" by (cases item)
  let ?S = "map_of (registries w self)"
  let ?M = "map_of (item # items)"
  let ?M' = "map_of items"
  from Cons.prems(1) have dist: "distinct (map fst items)" and fresh: "name \<notin> fst ` set items"
    by (simp_all add: item)
  from fresh have none: "?M' name = None" by (simp add: map_of_eq_None_iff)
  have rel: "(?M' n = Some (EventAt e)) = (n \<noteq> name \<and> ?M n = Some (EventAt e))" for n e
    using none by (auto simp add: item)
  have Mname: "?M name = Some d" by (simp add: item)
  note ready = Cons.prems(2)
  have skip: "\<exists>w'. copy_items beh fuel self items w = Some (Inr (), w') \<and> copied ?S ?M w w'"
    if "?S name = None \<or> (\<forall>e. ?M name \<noteq> Some (EventAt e))"
  proof -
    have "copy_ready ?S ?M' fuel w" using ready rel by (rule ready_skip)
    from Cons.IH [OF dist this] obtain w' where
      1: "copy_items beh fuel self items w = Some (Inr (), w')" and 2: "copied ?S ?M' w w'"
      by blast
    from 2 rel that have "copied ?S ?M w w'" by (rule copied_skip)
    with 1 show ?thesis by blast
  qed
  show ?case
  proof (cases d)
    case (OneTimeAt c)
    with Mname have "?S name = None \<or> (\<forall>e. ?M name \<noteq> Some (EventAt e))" by simp
    from skip [OF this] obtain w' where
      1: "copy_items beh fuel self items w = Some (Inr (), w')" and 2: "copied ?S ?M w w'"
      by blast
    have "copy_items beh fuel self (item # items) w = copy_items beh fuel self items w"
      by (simp add: item OneTimeAt)
    with 1 have "copy_items beh fuel self (item # items) w = Some (Inr (), w')" by simp
    with 2 show ?thesis by blast
  next
    case (EventAt e0)
    with Mname have Me: "?M name = Some (EventAt e0)" by simp
    from ready Me have len: "length (e_handlers (events w e0)) + 2 \<le> fuel"
      unfolding copy_ready_def by blast
    from ready have inj: "\<forall>n1 n2 d. ?S n1 = Some d \<and> ?S n2 = Some d \<longrightarrow> n1 = n2"
      unfolding copy_ready_def by blast
    from ready have disj: "\<forall>n1 n2 e. ?M n1 = Some (EventAt e) \<longrightarrow> ?S n2 \<noteq> Some (EventAt e)"
      unfolding copy_ready_def by blast
    show ?thesis
    proof (cases "?S name")
      case None
      then have "?S name = None \<or> (\<forall>e. ?M name \<noteq> Some (EventAt e))" by simp
      from skip [OF this] obtain w' where
        1: "copy_items beh fuel self items w = Some (Inr (), w')" and 2: "copied ?S ?M w w'"
        by blast
      have "copy_items beh fuel self (item # items) w = copy_items beh fuel self items w"
        using None by (simp add: item EventAt)
      with 1 have "copy_items beh fuel self (item # items) w = Some (Inr (), w')" by simp
      with 2 show ?thesis by blast
    next
      case (Some ev)
      show ?thesis
      proof (cases ev)
        case target: (EventAt s)
        with Some have Ss: "?S name = Some (EventAt s)" by simp
        with disj Me have neq: "s \<noteq> e0" by blast
        define w1 where "w1 = w\<lparr>events := (events w)(s := appended_Event w s e0)\<rparr>"
        have ch: "copy_handlers beh fuel e0 (EventAt s) 0 w = Some (Inr (), w1)"
          using copy_handlers_Event [OF neq, of 0 w fuel beh] len
          by (simp add: w1_def appended_Event_def)
        have reg: "registries w1 = registries w" by (simp add: w1_def)
        have "copy_ready ?S ?M' fuel w1"
          using ready rel Ss w1_def by (rule ready_step_Event)
        then have "copy_ready (map_of (registries w1 self)) ?M' fuel w1" by (simp add: reg)
        from Cons.IH [OF dist this] obtain w' where
          1: "copy_items beh fuel self items w1 = Some (Inr (), w')"
          and 2: "copied ?S ?M' w1 w'"
          by (auto simp add: reg)
        from 2 rel Ss Me inj disj w1_def have 3: "copied ?S ?M w w'" by (rule copied_Event_step)
        have "copy_items beh fuel self (item # items) w = copy_items beh fuel self items w1"
          using ch Ss by (simp add: item EventAt)
        with 1 have "copy_items beh fuel self (item # items) w = Some (Inr (), w')" by simp
        with 3 show ?thesis by blast
      next
        case target: (OneTimeAt s)
        with Some have Ss: "?S name = Some (OneTimeAt s)" by simp
        from ready Me Ss have pend: "\<not> d_called (o_events (onetimes w s))"
          unfolding copy_ready_def by blast
        define w1 where "w1 = w\<lparr>onetimes := (onetimes w)(s := appended_OneTime w s e0)\<rparr>"
        have ch: "copy_handlers beh fuel e0 (OneTimeAt s) 0 w = Some (Inr (), w1)"
          using copy_handlers_OneTime [OF pend, of 0 e0 fuel beh] len
          by (simp add: w1_def appended_OneTime_def)
        have reg: "registries w1 = registries w" by (simp add: w1_def)
        have "copy_ready ?S ?M' fuel w1"
          using ready rel w1_def by (rule ready_step_OneTime)
        then have "copy_ready (map_of (registries w1 self)) ?M' fuel w1" by (simp add: reg)
        from Cons.IH [OF dist this] obtain w' where
          1: "copy_items beh fuel self items w1 = Some (Inr (), w')"
          and 2: "copied ?S ?M' w1 w'"
          by (auto simp add: reg)
        from 2 rel Ss Me inj w1_def have 3: "copied ?S ?M w w'" by (rule copied_OneTime_step)
        have "copy_items beh fuel self (item # items) w = copy_items beh fuel self items w1"
          using ch Ss by (simp add: item EventAt)
        with 1 have "copy_items beh fuel self (item # items) w = Some (Inr (), w')" by simp
        with 3 show ?thesis by blast
      qed
    qed
  qed
qed

lemma w_two_eq:
  "w_two =
     \<lparr>events = (\<lambda>_. new_Event)
        (5 := new_Event\<lparr>e_handlers := [1, 2]\<rparr>,
         6 := new_Event\<lparr>e_handlers := [3]\<rparr>,
         2 := new_Event\<lparr>e_handlers := [3]\<rparr>,
         7 := new_Event\<lparr>e_handlers := [1]\<rparr>),
      onetimes = (\<lambda>_. new_OneTime)(4 := new_OneTime),
      registries = (\<lambda>_. [])
        (0 := [(''start'', EventAt 3), (''finish'', OneTimeAt 1), (''data'', EventAt 2)],
         1 := [(''finish'', OneTimeAt 4), (''data'', EventAt 5), (''extra'', EventAt 6)],
         2 := [(''finish'', EventAt 7)]),
      next_id = 8, log = [], spawned = [], calls = []\<rparr>"
  by (simp add: w_two_def after_def w_handler_eq EventHandler_init_def merge_names_def
      alloc_OneTime_def alloc_Event_def bind_event_def dispatcher_bind_def Event_bind_def
      upd_event_def new_Event_def Let_def fun_upd_twist)

lemma copy_handlers_same_Event:
  "i < length (e_handlers (events w e)) \<Longrightarrow> copy_handlers beh n e (EventAt e) i w = None"
proof (induction n arbitrary: i w)
  case 0
  then show ?case by simp
next
  case (Suc n)
  let ?w1 = "snd (Event_bind e (e_handlers (events w e) ! i) None w)"
  have "Suc i < length (e_handlers (events ?w1 e))"
    using Suc.prems by (simp add: Event_bind_def upd_event_def)
  from Suc.IH [OF this] Suc.prems show ?case
    by (simp add: dispatcher_bind_def Event_bind_def)
qed


section \<open>Futures\<close>

text \<open>
  C3.  \<open>set_result(v)\<close> succeeds exactly on a PENDING Future: the state becomes FINISHED,
  \<open>v\<close> is stored, the callback list is emptied and its callbacks are put on the ready
  list of the Future's loop, in order.  On a Future that is not PENDING both
  \<open>set_result\<close> and \<open>set_exception\<close> raise \<open>InvalidStateError\<close> and the store is
  unchanged.  So after a successful \<open>set_result(v)\<close> a second \<open>set_result(v')\<close> or a
  \<open>set_exception(e)\<close> fails, and \<open>result()\<close> still returns \<open>v\<close>.
\<close>

theorem set_result_at_most_once:
  "(f_state (heap w a) = PENDING \<longrightarrow>
      set_result a v w =
        (Inr (),
         w\<lparr>heap := (heap w)(a := (heap w a)\<lparr>f_result := v, f_state := FINISHED, f_callbacks := []\<rparr>),
           ready := (ready w)(f_loop (heap w a) :=
                      ready w (f_loop (heap w a)) @ scheduled a (f_callbacks (heap w a)))\<rparr>)) \<and>
   (f_state (heap w a) \<noteq> PENDING \<longrightarrow>
      set_result a v w = (Inl InvalidStateError, w) \<and>
      set_exception a e w = (Inl InvalidStateError, w)) \<and>
   (f_state (heap w a) = PENDING \<and> f_exception (heap w a) = None \<longrightarrow>
      (let w1 = snd (set_result a v w)
       in set_result a v' w1 = (Inl InvalidStateError, w1) \<and>
          set_exception a e w1 = (Inl InvalidStateError, w1) \<and>
          f_state (heap w1 a) = FINISHED \<and>
          fst (Future_result a w1) = Inr v))"
  by (simp add: set_result_eq set_exception_eq Let_def Future_result_def clear_tb_logger_fields)

text \<open>\<open>set_result(7)\<close> then \<open>set_result(8)\<close> on a Future with two callbacks.\<close>

theorem set_result_at_most_once_witness:
  "f_state (heap w_pending 0) = PENDING \<and> f_exception (heap w_pending 0) = None \<and>
   fst (set_result 0 (PyInt 7) w_pending) = Inr () \<and>
   f_state (heap (snd (set_result 0 (PyInt 7) w_pending)) 0) = FINISHED \<and>
   ready (snd (set_result 0 (PyInt 7) w_pending)) 0 =
     [mk_handle (Fn 1) [PyRef 0], mk_handle (Fn 2) [PyRef 0]] \<and>
   set_result 0 (PyInt 8) (snd (set_result 0 (PyInt 7) w_pending)) =
     (Inl InvalidStateError, snd (set_result 0 (PyInt 7) w_pending)) \<and>
   fst (Future_result 0 (snd (set_result 0 (PyInt 7) w_pending))) = Inr (PyInt 7)"
  using set_result_at_most_once [of w_pending 0 "PyInt 7" Error "PyInt 8"]
  by (simp add: w_pending_def add_done_callback_def Future_init_def
      new_Future_def upd_future_def empty_world_def scheduled_def Let_def set_result_eq)


text \<open>
  C4.  \<open>Future.cancel()\<close> returns true if and only if the Future is PENDING.  In that case
  the state becomes CANCELLED and every registered callback is put on the ready list of
  the Future's loop, in order; otherwise the store is unchanged, so that a FINISHED Future
  keeps its result.
\<close>

theorem Future_cancel_pending_iff:
  "(fst (Future_cancel a w) \<longleftrightarrow> f_state (heap w a) = PENDING) \<and>
   (f_state (heap w a) = PENDING \<longrightarrow>
      snd (Future_cancel a w) =
        w\<lparr>heap := (heap w)(a := (heap w a)\<lparr>f_state := CANCELLED, f_callbacks := []\<rparr>),
          ready := (ready w)(f_loop (heap w a) :=
                     ready w (f_loop (heap w a)) @ scheduled a (f_callbacks (heap w a)))\<rparr>) \<and>
   (f_state (heap w a) \<noteq> PENDING \<longrightarrow> snd (Future_cancel a w) = w)"
  by (simp add: Future_cancel_eq)

text \<open>Cancelling a pending Future, and cancelling one that holds the result 7.\<close>

theorem Future_cancel_pending_iff_witness:
  "f_state (heap w_pending 0) = PENDING \<and>
   fst (Future_cancel 0 w_pending) \<and>
   f_state (heap (snd (Future_cancel 0 w_pending)) 0) = CANCELLED \<and>
   ready (snd (Future_cancel 0 w_pending)) 0 =
     [mk_handle (Fn 1) [PyRef 0], mk_handle (Fn 2) [PyRef 0]] \<and>
   f_state (heap w_finished 0) = FINISHED \<and>
   \<not> fst (Future_cancel 0 w_finished) \<and>
   snd (Future_cancel 0 w_finished) = w_finished \<and>
   fst (Future_result 0 (snd (Future_cancel 0 w_finished))) = Inr (PyInt 7)"
  using Future_cancel_pending_iff [of 0 w_pending] Future_cancel_pending_iff [of 0 w_finished]
  by (simp add: w_finished_def w_pending_def add_done_callback_def Future_init_def
      new_Future_def upd_future_def empty_world_def scheduled_def set_result_eq
      Future_result_def clear_tb_logger_def)

text \<open>
  C5.  \<open>result()\<close> returns the stored value of a Future that is FINISHED without an
  exception, raises \<open>CancelledError\<close> on a CANCELLED one, raises the stored exception of
  one that is FINISHED with an exception, and raises \<open>InvalidStateError\<close> on a PENDING
  one (as \<open>exception()\<close> does).  It changes no Future's state, result or exception.
\<close>

theorem Future_result_by_state:
  "(f_state (heap w a) = FINISHED \<and> f_exception (heap w a) = None \<longrightarrow>
      fst (Future_result a w) = Inr (f_result (heap w a))) \<and>
   (f_state (heap w a) = CANCELLED \<longrightarrow> Future_result a w = (Inl CancelledError, w)) \<and>
   (f_state (heap w a) = FINISHED \<and> f_exception (heap w a) = Some e \<longrightarrow>
      fst (Future_result a w) = Inl e) \<and>
   (f_state (heap w a) = PENDING \<longrightarrow>
      Future_result a w = (Inl InvalidStateError, w) \<and>
      Future_exception a w = (Inl InvalidStateError, w)) \<and>
   f_state (heap (snd (Future_result a w)) b) = f_state (heap w b) \<and>
   f_result (heap (snd (Future_result a w)) b) = f_result (heap w b) \<and>
   f_exception (heap (snd (Future_result a w)) b) = f_exception (heap w b)"
  by (simp add: Future_result_def Future_exception_def Let_def clear_tb_logger_fields
      split: option.splits)

text \<open>The four cases, on the example stores; the last is a new Future.\<close>

theorem Future_result_by_state_witness:
  "f_state (heap w_finished 0) = FINISHED \<and> f_exception (heap w_finished 0) = None \<and>
   fst (Future_result 0 w_finished) = Inr (PyInt 7) \<and>
   f_state (heap (snd (Future_cancel 0 w_pending)) 0) = CANCELLED \<and>
   fst (Future_result 0 (snd (Future_cancel 0 w_pending))) = Inl CancelledError \<and>
   f_state (heap w_failed 0) = FINISHED \<and> f_exception (heap w_failed 0) = Some (OtherError 3) \<and>
   fst (Future_result 0 w_failed) = Inl (OtherError 3) \<and>
   f_state (heap (Future_init 0 0 empty_world) 0) = PENDING \<and>
   fst (Future_result 0 (Future_init 0 0 empty_world)) = Inl InvalidStateError \<and>
   fst (Future_exception 0 (Future_init 0 0 empty_world)) = Inl InvalidStateError"
  using Future_result_by_state [of w_finished 0 Error 0]
    Future_result_by_state [of "snd (Future_cancel 0 w_pending)" 0 Error 0]
    Future_result_by_state [of w_failed 0 "OtherError 3" 0]
    Future_result_by_state [of "Future_init 0 0 empty_world" 0 Error 0]
  by (simp add: w_finished_def w_failed_def w_pending_def add_done_callback_def Future_init_def
      new_Future_def upd_future_def empty_world_def scheduled_def set_result_eq
      set_exception_eq Future_cancel_eq)

text \<open>
  C6.  \<open>add_done_callback(cb)\<close> appends \<open>cb\<close> to the callback list of a PENDING Future.
  On a settled Future its only effect is one more handle \<open>(cb, self)\<close> at the end of the
  ready list of the Future's loop (\<open>call_soon\<close>): no Future changes, nothing is run.
  Callbacks registered one after another on a PENDING Future are put on the ready list in
  that order when the Future is settled by \<open>cancel\<close>, \<open>set_result\<close> or
  \<open>set_exception\<close> (which adds the traceback logger's handle after them).
\<close>

theorem add_done_callback_registration_order:
  "(f_state (heap w a) = PENDING \<longrightarrow>
      add_done_callback a cb w =
        w\<lparr>heap := (heap w)(a := (heap w a)\<lparr>f_callbacks := f_callbacks (heap w a) @ [cb]\<rparr>)\<rparr>) \<and>
   (f_state (heap w a) \<noteq> PENDING \<longrightarrow>
      add_done_callback a cb w =
        w\<lparr>ready := (ready w)(f_loop (heap w a) :=
                   ready w (f_loop (heap w a)) @ [mk_handle cb [PyRef a]])\<rparr>) \<and>
   (f_state (heap w a) = PENDING \<longrightarrow>
      (let w1 = fold (add_done_callback a) cbs w;
           l = f_loop (heap w a);
           queued = ready w l @ scheduled a (f_callbacks (heap w a) @ cbs)
       in ready (snd (Future_cancel a w1)) l = queued \<and>
          ready (snd (set_result a v w1)) l = queued \<and>
          ready (snd (set_exception a e w1)) l =
            queued @ [mk_handle (TbLogger_activate (next_tb w)) []]))"
  by (simp add: add_done_callback_def upd_future_def call_soon_def Let_def
      fold_add_done_callback Future_cancel_eq set_result_eq set_exception_eq)

text \<open>Three callbacks registered in order, then the Future is settled; a late callback.\<close>

theorem add_done_callback_registration_order_witness:
  "f_state (heap (Future_init 0 0 empty_world) 0) = PENDING \<and>
   f_callbacks (heap (add_done_callback 0 (Fn 5) (Future_init 0 0 empty_world)) 0) = [Fn 5] \<and>
   ready (snd (set_result 0 (PyInt 7)
       (fold (add_done_callback 0) [Fn 1, Fn 2, Fn 3] (Future_init 0 0 empty_world)))) 0 =
     [mk_handle (Fn 1) [PyRef 0], mk_handle (Fn 2) [PyRef 0], mk_handle (Fn 3) [PyRef 0]] \<and>
   f_state (heap w_finished 0) \<noteq> PENDING \<and>
   heap (add_done_callback 0 (Fn 5) w_finished) = heap w_finished \<and>
   ready (add_done_callback 0 (Fn 5) w_finished) 0 =
     [mk_handle (Fn 1) [PyRef 0], mk_handle (Fn 2) [PyRef 0], mk_handle (Fn 5) [PyRef 0]]"
  using add_done_callback_registration_order
          [of "Future_init 0 0 empty_world" 0 "Fn 5" "[Fn 1, Fn 2, Fn 3]" "PyInt 7" Error]
    add_done_callback_registration_order [of w_finished 0 "Fn 5" "[]" PyNone Error]
  by (simp add: w_finished_def w_pending_def add_done_callback_def Future_init_def
      new_Future_def upd_future_def empty_world_def scheduled_def set_result_eq Let_def)

section \<open>Tasks\<close>

text \<open>
  C1, as stated, fails: a Task suspended on a pending Future is cancelled, the Future
  accepts the cancellation, \<open>Task.cancel()\<close> returns true and the Task's \<open>_must_cancel\<close>
  is still false.  The same holds when the waiter is a Task that has nothing to wait for:
  the waiter's flag is armed, the outer Task's flag is not.
\<close>

theorem Task_cancel_flag_counterexample:
  "\<not> Future_done 0 w_task \<and>
   Option.bind (f_task (heap w_task 0)) fut_waiter = Some 1 \<and>
   fst (Future_cancel 1 w_task) \<and>
   map_option fst (Task_cancel 1 0 w_task) = Some True \<and>
   map_option (\<lambda>r. Task_must_cancel 0 (snd r)) (Task_cancel 1 0 w_task) = Some (Some False) \<and>
   map_option fst (Task_cancel 1 1 w_nested) = Some True \<and>
   map_option fst (Task_cancel 2 0 w_nested) = Some True \<and>
   map_option (\<lambda>r. Task_must_cancel 0 (snd r)) (Task_cancel 2 0 w_nested) = Some (Some False) \<and>
   map_option (\<lambda>r. Task_must_cancel 1 (snd r)) (Task_cancel 2 0 w_nested) = Some (Some True)"
  by (simp add: w_task_def w_nested_def Task_init_def Future_init_def add_done_callback_def
      new_Future_def upd_future_def empty_world_def Future_done_def Future_cancel_eq call_soon_def
      Task_must_cancel_def Let_def arm_def numeral_2_eq_2)

text \<open>
  C1, amended.  \<open>Task.cancel()\<close> returns false on a Task that is done and changes
  nothing.  On a Task that is not done it returns true, and:
  with no waiter, the store is changed only by arming \<open>_must_cancel\<close>;
  with a waiter that accepts the cancellation (a PENDING plain Future, or a Task whose own
  \<open>cancel()\<close> returns true), the store is the one the waiter's \<open>cancel()\<close> left: the
  waiter stays in place and this call does not arm the flag (the Task object itself is
  untouched when the waiter is a PENDING plain Future);
  with a waiter that refuses (a settled Future, or a Task whose \<open>cancel()\<close> returns
  false), the flag is armed after the waiter's \<open>cancel()\<close>.
\<close>

theorem Task_cancel_provisional:
  "(f_state (heap w a) \<noteq> PENDING \<longrightarrow> Task_cancel (Suc d) a w = Some (False, w)) \<and>
   (f_state (heap w a) = PENDING \<and> f_task (heap w a) = Some t \<longrightarrow>
     (fut_waiter t = None \<longrightarrow> Task_cancel (Suc d) a w = Some (True, arm a w)) \<and>
     (fut_waiter t = Some fw \<and> f_task (heap w fw) = None \<and> f_state (heap w fw) = PENDING \<longrightarrow>
        Task_cancel (Suc d) a w = Some (True, snd (Future_cancel fw w)) \<and>
        fst (Future_cancel fw w) \<and>
        (fw \<noteq> a \<longrightarrow> heap (snd (Future_cancel fw w)) a = heap w a)) \<and>
     (fut_waiter t = Some fw \<and> f_task (heap w fw) = None \<and> f_state (heap w fw) \<noteq> PENDING \<longrightarrow>
        Task_cancel (Suc d) a w = Some (True, arm a w)) \<and>
     (fut_waiter t = Some fw \<and> f_task (heap w fw) \<noteq> None \<and>
      Task_cancel d fw w = Some (True, w1) \<longrightarrow>
        Task_cancel (Suc d) a w = Some (True, w1)) \<and>
     (fut_waiter t = Some fw \<and> f_task (heap w fw) \<noteq> None \<and>
      Task_cancel d fw w = Some (False, w1) \<longrightarrow>
        Task_cancel (Suc d) a w = Some (True, arm a w1)))"
  by (auto simp add: Future_done_def Future_cancel_eq)

text \<open>
  The Task suspended on a pending Future (the Task object is unchanged, the Future is
  CANCELLED), a Task with no waiter (the flag is armed), and a Task at 0 suspended on the
  Task at 1 whose \<open>cancel()\<close> returns true.
\<close>

theorem Task_cancel_provisional_witness:
  "f_state (heap w_task 0) = PENDING \<and>
   f_task (heap w_task 0) = Some \<lparr>fut_waiter = Some 1, must_cancel = False\<rparr> \<and>
   f_task (heap w_task 1) = None \<and> f_state (heap w_task 1) = PENDING \<and>
   Task_cancel 1 0 w_task = Some (True, snd (Future_cancel 1 w_task)) \<and>
   heap (snd (Future_cancel 1 w_task)) 0 = heap w_task 0 \<and>
   f_state (heap (snd (Future_cancel 1 w_task)) 1) = CANCELLED \<and>
   Task_cancel 1 0 (Task_init 0 0 empty_world) = Some (True, arm 0 (Task_init 0 0 empty_world)) \<and>
   Task_must_cancel 0 (arm 0 (Task_init 0 0 empty_world)) = Some True \<and>
   Task_cancel 1 1 w_nested = Some (True, arm 1 w_nested) \<and>
   Task_cancel 2 0 w_nested = Some (True, arm 1 w_nested)"
  using Task_cancel_provisional
          [of w_task 0 0 "\<lparr>fut_waiter = Some 1, must_cancel = False\<rparr>" 1 w_task]
    Task_cancel_provisional
          [of "Task_init 0 0 empty_world" 0 0 "\<lparr>fut_waiter = None, must_cancel = False\<rparr>" 0
              empty_world]
    Task_cancel_provisional
          [of w_nested 1 0 "\<lparr>fut_waiter = None, must_cancel = False\<rparr>" 0 empty_world]
    Task_cancel_provisional
          [of w_nested 0 1 "\<lparr>fut_waiter = Some 1, must_cancel = False\<rparr>" 1 "arm 1 w_nested"]
  by (simp add: w_task_def w_nested_def Task_init_def Future_init_def add_done_callback_def
      new_Future_def upd_future_def empty_world_def Future_cancel_eq call_soon_def
      Task_must_cancel_def Let_def arm_def numeral_2_eq_2)

section \<open>Event\<close>

text \<open>
  C7, as stated, fails for two kinds of callbacks.  On the Event with functions 1, 2, 3
  bound: when function 2 raises \<open>_StopError\<close>, which is a \<open>BaseException\<close> and not an
  \<open>Exception\<close>, the \<open>except\<close> clause of \<open>fire\<close> lets it pass: \<open>fire\<close> raises it to its
  caller, function 3 is not called and nothing reaches the error sink.  And when function
  1 binds a fourth function to the Event while it is fired, the pass goes on to that
  function as well: four calls are made, not three.
\<close>

theorem Event_fire_counterexample:
  "\<not> e_silenced (events w_abc 0) \<and> e_handlers (events w_abc 0) = [1, 2, 3] \<and>
   fst (beh_stop 2 (PyInt 1) [] w_abc) = Raised StopError \<and>
   map_option fst (Event_fire beh_stop 9 0 (PyInt 1) [] w_abc) = Some (Inl StopError) \<and>
   map_option (\<lambda>r. calls (snd r)) (Event_fire beh_stop 9 0 (PyInt 1) [] w_abc) =
     Some [(1, PyInt 1, []), (2, PyInt 1, [])] \<and>
   map_option (\<lambda>r. log (snd r)) (Event_fire beh_stop 9 0 (PyInt 1) [] w_abc) = Some [] \<and>
   fst (beh_rebind 2 (PyInt 1) [] w_abc) = Raised (OtherError 7) \<and>
   map_option fst (Event_fire beh_rebind 9 0 (PyInt 1) [] w_abc) = Some (Inr PyNone) \<and>
   map_option (\<lambda>r. calls (snd r)) (Event_fire beh_rebind 9 0 (PyInt 1) [] w_abc) =
     Some [(1, PyInt 1, []), (2, PyInt 1, []), (3, PyInt 1, []), (4, PyInt 1, [])]"
  by (simp add: w_abc_def Event_bind_def upd_event_def empty_eworld_def new_Event_def
      beh_stop_def beh_rebind_def Event_fire_def call_function_def eval_nat_numeral
      logger_exception_def emit_def async_def isgenerator_def)

text \<open>
  C7, amended.  Take an Event that is not silenced, with callbacks \<open>A\<close>, \<open>B\<close>, \<open>C\<close> bound
  in this order, where \<open>B\<close> raises an instance of \<open>Exception\<close>, \<open>A\<close> and \<open>C\<close> return, and
  none of the three changes the Event itself (binds to it, fires it).  Then
  \<open>fire(x, **kw)\<close> returns normally (with \<open>None\<close>), and the store it leaves is the one
  reached by counting the fire, calling \<open>A(x, **kw)\<close>, calling \<open>B(x, **kw)\<close>, handing the
  exception of \<open>B\<close> to the error sink, and calling \<open>C(x, **kw)\<close>, in this order (a
  generator that \<open>A\<close> or \<open>C\<close> returns goes to \<open>async\<close>).  The fire count is one greater.
  The record of calls is extended by \<open>A\<close>, \<open>B\<close>, \<open>C\<close> in this order, each followed by the
  calls made inside it (\<open>na\<close>, \<open>nb\<close>, \<open>nc\<close>).  The stores \<open>wa\<close>, \<open>wb\<close>, \<open>wc\<close> are
  those the three calls leave.
\<close>

theorem Event_fire_isolates_failure:
  fixes beh :: behaviour and w :: eworld and ev A B C :: nat and x :: pyval and kw :: kwargs
    and va vc :: pyval and err :: exn
  defines "w0 \<equiv> upd_event ev (\<lambda>e. e\<lparr>e_fired := e_fired e + 1\<rparr>) w"
  defines "wa \<equiv> snd (call_function beh A x kw w0)"
  defines "wa' \<equiv> (if isgenerator va then async va wa else wa)"
  defines "wb \<equiv> snd (call_function beh B x kw wa')"
  defines "wb' \<equiv> logger_exception ''Exception while firing event'' err wb"
  defines "wc \<equiv> snd (call_function beh C x kw wb')"
  defines "wc' \<equiv> (if isgenerator vc then async vc wc else wc)"
  assumes "\<not> e_silenced (events w ev)" and "e_handlers (events w ev) = [A, B, C]"
    and "fst (call_function beh A x kw w0) = Returned va"
    and "fst (call_function beh B x kw wa') = Raised err" and "is_Exception err"
    and "fst (call_function beh C x kw wb') = Returned vc"
    and "events wa ev = events w0 ev" and "events wb ev = events w0 ev"
    and "events wc ev = events w0 ev"
    and "calls wa = calls w0 @ (A, x, kw) # na"
    and "calls wb = calls wa' @ (B, x, kw) # nb"
    and "calls wc = calls wb' @ (C, x, kw) # nc"
  shows "Event_fire beh (Suc (Suc (Suc (Suc n)))) ev x kw w = Some (Inr PyNone, wc') \<and>
         calls wc' = calls w @ (A, x, kw) # na @ (B, x, kw) # nb @ (C, x, kw) # nc \<and>
         e_fired (events wc' ev) = e_fired (events w ev) + 1 \<and>
         log wb' = log wb @ [\<lparr>lr_level = ERROR, lr_msg = ''Exception while firing event'',
                               lr_args = [], lr_exc = Some err\<rparr>]"
proof -
  have h0: "e_handlers (events w0 ev) = [A, B, C]" "e_fired (events w0 ev) = e_fired (events w ev) + 1"
    using assms by (simp_all add: upd_event_def)
  have ea: "events wa' ev = events w0 ev" using assms by (simp add: async_def)
  have eb: "events wb' ev = events w0 ev" using assms by (simp add: logger_exception_def emit_def)
  have ec: "events wc' ev = events w0 ev" using assms by (simp add: async_def)
  have ca: "call_function beh A x kw w0 = (Returned va, wa)"
    using assms by (simp add: prod_eq_iff)
  have cb: "call_function beh B x kw wa' = (Raised err, wb)"
    using assms by (simp add: prod_eq_iff)
  have cc: "call_function beh C x kw wb' = (Returned vc, wc)"
    using assms by (simp add: prod_eq_iff)
  have fire: "Event_fire beh (Suc (Suc (Suc (Suc n)))) ev x kw w = Some (Inr PyNone, wc')"
    using assms(8,12) h0 ea eb ec ca cb cc
    by (simp add: Event_fire_def w0_def [symmetric] wa'_def [symmetric] wb'_def [symmetric] wc'_def [symmetric])
  have c0: "calls w0 = calls w" by (simp add: w0_def upd_event_def)
  have c1: "calls wa' = calls wa" by (simp add: wa'_def async_def)
  have c2: "calls wb' = calls wb" by (simp add: wb'_def logger_exception_def emit_def)
  have c3: "calls wc' = calls wc" by (simp add: wc'_def async_def)
  have calls: "calls wc' = calls w @ (A, x, kw) # na @ (B, x, kw) # nb @ (C, x, kw) # nc"
    using assms(17,18,19) by (simp add: c0 c1 c2 c3)
  show ?thesis using fire calls ec h0
    by (simp add: wb'_def logger_exception_def emit_def)
qed

text \<open>The Event with 1, 2, 3 bound, of which 2 raises and 3 returns a generator.\<close>

theorem Event_fire_isolates_failure_witness:
  "\<not> e_silenced (events w_abc 0) \<and> e_handlers (events w_abc 0) = [1, 2, 3] \<and>
   fst (beh_abc 2 (PyInt 1) [] w_abc) = Raised (OtherError 7) \<and> is_Exception (OtherError 7) \<and>
   map_option fst (Event_fire beh_abc 4 0 (PyInt 1) [] w_abc) = Some (Inr PyNone) \<and>
   map_option (\<lambda>r. calls (snd r)) (Event_fire beh_abc 4 0 (PyInt 1) [] w_abc) =
     Some [(1, PyInt 1, []), (2, PyInt 1, []), (3, PyInt 1, [])] \<and>
   map_option (\<lambda>r. e_fired (events (snd r) 0)) (Event_fire beh_abc 4 0 (PyInt 1) [] w_abc) =
     Some 1 \<and>
   map_option (\<lambda>r. log (snd r)) (Event_fire beh_abc 4 0 (PyInt 1) [] w_abc) =
     Some [\<lparr>lr_level = ERROR, lr_msg = ''Exception while firing event'', lr_args = [],
            lr_exc = Some (OtherError 7)\<rparr>] \<and>
   map_option (\<lambda>r. spawned (snd r)) (Event_fire beh_abc 4 0 (PyInt 1) [] w_abc) =
     Some [PyGenerator 5]"
  using Event_fire_isolates_failure
          [where beh = beh_abc and w = w_abc and ev = 0 and A = 1 and B = 2 and C = 3
             and x = "PyInt 1" and kw = "[]" and va = PyNone and vc = "PyGenerator 5"
             and err = "OtherError 7" and n = 0 and na = "[]" and nb = "[]" and nc = "[]"]
  by (simp add: w_abc_def Event_bind_def upd_event_def empty_eworld_def new_Event_def
      beh_abc_def call_function_def eval_nat_numeral logger_exception_def emit_def async_def
      isgenerator_def)

text \<open>
  C9.  \<open>silence()\<close> sets the flag; on a silenced Event \<open>fire\<close> returns at once and
  leaves the whole store as it is, so no callback is called and the fire count stays; and
  after \<open>silence()\<close> any run of \<open>fire\<close>, \<open>bind\<close> and \<open>silence\<close> calls on the Event comes
  to an end with the Event still silenced, the fire count unchanged and no call made: no
  method of an Event resets the flag.
\<close>

theorem silenced_Event_never_fires:
  "e_silenced (events (Event_silence a w) a) \<and>
   (e_silenced (events w a) \<longrightarrow> Event_fire beh n a x kw w = Some (Inr PyNone, w)) \<and>
   (\<exists>w'. Event_ops beh n a ops (Event_silence a w) = Some w' \<and>
         e_silenced (events w' a) \<and>
         e_fired (events w' a) = e_fired (events w a) \<and>
         calls w' = calls w)"
proof -
  have s: "e_silenced (events (Event_silence a w) a)"
    by (simp add: Event_silence_def upd_event_def)
  have f: "e_fired (events (Event_silence a w) a) = e_fired (events w a)"
    "calls (Event_silence a w) = calls w"
    by (simp_all add: Event_silence_def upd_event_def)
  from silenced_ops [OF s, of beh n ops] f s show ?thesis
    by (auto simp add: Event_fire_def)
qed

text \<open>The Event with three callbacks: fired after \<open>silence()\<close>, and fired as it is.\<close>

theorem silenced_Event_never_fires_witness:
  "e_silenced (events (Event_silence 0 w_abc) 0) \<and>
   Event_fire beh_abc 9 0 (PyInt 1) [] (Event_silence 0 w_abc) = Some (Inr PyNone, Event_silence 0 w_abc) \<and>
   calls (Event_silence 0 w_abc) = [] \<and>
   map_option (\<lambda>r. calls (snd r)) (Event_fire beh_abc 9 0 (PyInt 1) [] w_abc) =
     Some [(1, PyInt 1, []), (2, PyInt 1, []), (3, PyInt 1, [])]"
  using silenced_Event_never_fires [of 0 w_abc beh_abc 9 "PyInt 1" "[]" "[]"]
    silenced_Event_never_fires [of 0 "Event_silence 0 w_abc" beh_abc 9 "PyInt 1" "[]" "[]"]
  by (simp add: w_abc_def Event_bind_def upd_event_def empty_eworld_def new_Event_def
      beh_abc_def Event_fire_def call_function_def eval_nat_numeral logger_exception_def
      emit_def async_def isgenerator_def Event_silence_def)


section \<open>EventHandler\<close>

text \<open>
  C10.  The one-time names are those of the class attribute and of the argument
  (\<open>ones\<close>), the many-times names likewise (\<open>manys\<close>).  After construction every
  many-times name maps to a new repeatable Event, also when it is a one-time name as
  well: the Event entries are written after the OneTime entries and replace them.  A name
  that is one-time only maps to a new OneTime, and any other name is not in the
  dictionary.
\<close>

theorem EventHandler_init_collision:
  fixes w :: eworld and self :: nat and ONE MANY :: "string list"
    and one many :: "string list option"
  defines "w' \<equiv> EventHandler_init self ONE MANY one many w"
  defines "ones \<equiv> set ONE \<union> (case one of None \<Rightarrow> {} | Some xs \<Rightarrow> set xs)"
  defines "manys \<equiv> set MANY \<union> (case many of None \<Rightarrow> {} | Some xs \<Rightarrow> set xs)"
  shows
  "(name \<in> manys \<longrightarrow>
      (\<exists>a. map_of (registries w' self) name = Some (EventAt a) \<and> events w' a = new_Event)) \<and>
   (name \<in> ones \<and> name \<notin> manys \<longrightarrow>
      (\<exists>a. map_of (registries w' self) name = Some (OneTimeAt a) \<and>
           onetimes w' a = new_OneTime)) \<and>
   (name \<notin> ones \<and> name \<notin> manys \<longrightarrow> map_of (registries w' self) name = None)"
proof -
  obtain d1 w1 where one: "make_OneTimes (merge_names ONE one) [] w = (d1, w1)"
    by (cases "make_OneTimes (merge_names ONE one) [] w")
  obtain d2 w2 where many: "make_Events (merge_names MANY many) d1 w1 = (d2, w2)"
    by (cases "make_Events (merge_names MANY many) d1 w1")
  have w': "w' = w2\<lparr>registries := (registries w2)(self := d2)\<rparr>"
    by (simp add: w'_def EventHandler_init_def one many Let_def)
  note r1 = make_OneTimes_result [OF one, of name]
  note r2 = make_Events_result [OF many, of name]
  have s1: "set (merge_names ONE one) = ones" by (simp add: set_merge_names ones_def)
  have s2: "set (merge_names MANY many) = manys" by (simp add: set_merge_names manys_def)
  have a: "name \<in> manys \<longrightarrow>
      (\<exists>a. map_of (registries w' self) name = Some (EventAt a) \<and> events w' a = new_Event)"
    using r2 by (auto simp add: w' s2)
  have b: "name \<in> ones \<and> name \<notin> manys \<longrightarrow>
      (\<exists>a. map_of (registries w' self) name = Some (OneTimeAt a) \<and>
           onetimes w' a = new_OneTime)"
    using r1 r2 by (auto simp add: w' s1 s2)
  have c: "name \<notin> ones \<and> name \<notin> manys \<longrightarrow> map_of (registries w' self) name = None"
    using r1 r2 by (auto simp add: w' s1 s2)
  from a b c show ?thesis by blast
qed

text \<open>\<open>start\<close> is named in both sets, \<open>finish\<close> is one-time only.\<close>

theorem EventHandler_init_collision_witness:
  "''start'' \<in> set [''start'', ''finish''] \<and> ''start'' \<in> set [''data''] \<union> set [''start''] \<and>
   map_of (registries w_handler 0) ''start'' = Some (EventAt 3) \<and>
   events w_handler 3 = new_Event \<and>
   map_of (registries w_handler 0) ''finish'' = Some (OneTimeAt 1) \<and>
   map_of (registries w_handler 0) ''data'' = Some (EventAt 2) \<and>
   map_of (registries w_handler 0) ''closed'' = None"
  using EventHandler_init_collision
          [where self = 0 and ONE = "[''start'', ''finish'']" and MANY = "[''data'']"
             and one = None and many = "Some [''start'']" and w = empty_eworld
             and name = "''start''"]
  by (simp add: w_handler_def EventHandler_init_def merge_names_def alloc_OneTime_def
      alloc_Event_def empty_eworld_def Let_def eval_nat_numeral)

text \<open>
  C2, as stated, fails for two of its four usage errors.  On the handler above,
  \<open>fire_event('finish', 1, k=2)\<close> on the one-time event \<open>finish\<close> raises \<open>ValueError\<close>
  out of \<open>fire_event\<close>, and \<open>bind_event('data', [f1, f3], f2)\<close> raises
  \<open>AssertionError\<close> out of \<open>bind_event\<close>; nothing is reported to the error sink (the
  store is unchanged).
\<close>

theorem usage_errors_counterexample:
  "map_of (registries w_handler 0) ''finish'' = Some (OneTimeAt 1) \<and>
   \<not> o_silenced (onetimes w_handler 1) \<and>
   fire_event beh_abc 9 0 ''finish'' (PyInt 1) [(''k'', PyInt 2)] w_handler =
     Some (Inl ValueError, w_handler) \<and>
   map_of (registries w_handler 0) ''data'' = Some (EventAt 2) \<and>
   bind_event beh_abc 9 0 ''data'' (Several [1, 3]) (Some 2) w_handler =
     Some (Inl AssertionError, w_handler)"
  by (simp add: w_handler_eq fire_event_def dispatcher_fire_def OneTime_fire_def
      bind_event_def new_OneTime_def)

text \<open>
  C2, amended.  An unknown event name passed to \<open>fire_event\<close> is reported to the error
  sink as a warning and the call returns \<open>None\<close> with nothing else changed.  A second
  fire of a one-time event that is not silenced and whose Deferred is settled is
  reported as an error and the call returns \<open>None\<close> with nothing else changed: no
  callback is called.  Keyword arguments on a fire of a one-time event that is not
  silenced raise \<open>ValueError\<close> out of \<open>fire_event\<close>, and an error-callback together with
  a list of callbacks raises \<open>AssertionError\<close> out of \<open>bind_event\<close> (after a new Event
  has been registered under the name, if the name was unknown); neither is reported.
\<close>

theorem usage_errors_reported_or_raised:
  "(map_of (registries w self) name = None \<longrightarrow>
      fire_event beh n self name arg kw w =
        Some (Inr PyNone,
              logger_warning unknown_event_msg [PyStr name, PyEventHandler self] w)) \<and>
   (map_of (registries w self) name = Some (OneTimeAt a) \<and> \<not> o_silenced (onetimes w a) \<and>
    d_called (o_events (onetimes w a)) \<longrightarrow>
      fire_event beh (Suc n) self name arg [] w =
        Some (Inr PyNone, logger_error (''Event '' @ name @ '' already fired'') w)) \<and>
   (map_of (registries w self) name = Some (OneTimeAt a) \<and> \<not> o_silenced (onetimes w a) \<and>
    kw \<noteq> [] \<longrightarrow>
      fire_event beh n self name arg kw w = Some (Inl ValueError, w)) \<and>
   (map_of (registries w self) name = Some d \<longrightarrow>
      bind_event beh n self name (Several cbks) (Some eb) w = Some (Inl AssertionError, w)) \<and>
   (map_of (registries w self) name = None \<longrightarrow>
      bind_event beh n self name (Several cbks) (Some eb) w =
        Some (Inl AssertionError,
              w\<lparr>events := (events w)(next_id w := new_Event), next_id := Suc (next_id w),
                registries := (registries w)
                  (self := AList.update name (EventAt (next_id w)) (registries w self))\<rparr>))"
  by (simp add: fire_event_def dispatcher_fire_def OneTime_fire_def Deferred_callback_def
      get_d_def bind_event_def alloc_Event_def Let_def update_conv')

text \<open>
  On the handler whose \<open>finish\<close> event has fired: an unknown name, a second fire, a fire
  with a keyword argument, and a list of callbacks with an errback on a known and on an
  unknown name.
\<close>

theorem usage_errors_reported_or_raised_witness:
  "map_of (registries w_fired 0) ''closed'' = None \<and>
   fire_event beh_abc 9 0 ''closed'' PyNone [] w_fired =
     Some (Inr PyNone,
           w_fired\<lparr>log := [\<lparr>lr_level = WARNING, lr_msg = unknown_event_msg,
                            lr_args = [PyStr ''closed'', PyEventHandler 0], lr_exc = None\<rparr>]\<rparr>) \<and>
   map_of (registries w_fired 0) ''finish'' = Some (OneTimeAt 1) \<and>
   \<not> o_silenced (onetimes w_fired 1) \<and> d_called (o_events (onetimes w_fired 1)) \<and>
   calls w_fired = [(1, PyStr ''v1'', []), (3, PyStr ''v1'', [])] \<and>
   fire_event beh_abc 9 0 ''finish'' (PyStr ''v2'') [] w_fired =
     Some (Inr PyNone,
           w_fired\<lparr>log := [\<lparr>lr_level = ERROR, lr_msg = ''Event finish already fired'',
                            lr_args = [], lr_exc = None\<rparr>]\<rparr>) \<and>
   fire_event beh_abc 9 0 ''finish'' (PyStr ''v2'') [(''k'', PyInt 2)] w_fired =
     Some (Inl ValueError, w_fired) \<and>
   map_of (registries w_fired 0) ''data'' = Some (EventAt 2) \<and>
   bind_event beh_abc 9 0 ''data'' (Several [1, 3]) (Some 2) w_fired =
     Some (Inl AssertionError, w_fired) \<and>
   map_option fst (bind_event beh_abc 9 0 ''closed'' (Several [1, 3]) (Some 2) w_fired) =
     Some (Inl AssertionError) \<and>
   map_option (\<lambda>r. map_of (registries (snd r) 0) ''closed'')
     (bind_event beh_abc 9 0 ''closed'' (Several [1, 3]) (Some 2) w_fired) =
     Some (Some (EventAt 4))"
  using usage_errors_reported_or_raised
          [where w = w_fired and self = 0 and name = "''closed''" and beh = beh_abc and n = 9
             and arg = PyNone and kw = "[]" and cbks = "[1, 3]" and eb = 2]
    usage_errors_reported_or_raised
          [where w = w_fired and self = 0 and name = "''finish''" and beh = beh_abc and n = 8
             and arg = "PyStr ''v2''" and a = 1]
    usage_errors_reported_or_raised
          [where w = w_fired and self = 0 and name = "''finish''" and beh = beh_abc and n = 9
             and arg = "PyStr ''v2''" and kw = "[(''k'', PyInt 2)]" and a = 1]
    usage_errors_reported_or_raised
          [where w = w_fired and self = 0 and name = "''data''" and beh = beh_abc and n = 9
             and d = "EventAt 2" and cbks = "[1, 3]" and eb = 2]
  by (simp add: w_fired_eq new_OneTime_def new_Deferred_def logger_warning_def logger_error_def
      emit_def)


text \<open>
  C8, as stated, fails where it says that one-time dispatchers are left untouched.
  Handler 0 holds a OneTime under \<open>finish\<close>, handler 2 holds a repeatable Event under the
  same name with function 1 bound.  \<open>copy_many_times_events\<close> on handler 0 from handler 2
  binds function 1 to the OneTime of handler 0: its callback chain, empty before, holds
  the function afterwards.
\<close>

theorem copy_touches_OneTime_counterexample:
  "map_of (registries w_two 0) ''finish'' = Some (OneTimeAt 1) \<and>
   map_of (registries w_two 2) ''finish'' = Some (EventAt 7) \<and>
   e_handlers (events w_two 7) = [1] \<and>
   d_callbacks (o_events (onetimes w_two 1)) = [] \<and>
   map_option fst (copy_many_times_events beh_abc 9 0 (PyEventHandler 2) w_two) = Some (Inr ()) \<and>
   map_option (\<lambda>r. d_callbacks (o_events (onetimes (snd r) 1)))
     (copy_many_times_events beh_abc 9 0 (PyEventHandler 2) w_two) = Some [(Function 1, None)]"
  by (simp add: w_two_eq copy_many_times_events_def dispatcher_bind_def OneTime_bind_def
      Deferred_add_callback_def get_d_def upd_d_def new_OneTime_def new_Deferred_def
      new_Event_def eval_nat_numeral)

text \<open>
  C8, amended.  Let \<open>mine\<close> be the dictionary of the receiving handler and \<open>theirs\<close> that
  of \<open>other\<close>, where no dispatcher stands under two names of \<open>mine\<close> and no Event of
  \<open>theirs\<close> is an Event of \<open>mine\<close> (as for two handlers built by the constructor), and
  let the bound exceed the handler lists by two.  Then the call comes to an end without
  an exception, no user function is called, nothing is logged, both dictionaries are
  unchanged, and every Event of \<open>other\<close> is exactly as before (nothing is removed).  For
  a name under which \<open>other\<close> holds a repeatable Event: if the receiver holds a
  repeatable Event under it, that Event gets the callbacks of \<open>other\<close>'s Event appended,
  in order, to its own; if the receiver holds a OneTime under it (one that has not fired),
  the callbacks are bound to that OneTime, queued on its chain with no errback.  Every
  other Event and OneTime of the store is unchanged: names that are not in both
  dictionaries and names under which \<open>other\<close> holds a OneTime have no effect.

  Without the condition on shared Events the call need not end: an Event copied onto
  itself grows as fast as it is read (\<open>copy_handlers_same_Event\<close>).
\<close>

theorem copy_many_times_events_effect:
  fixes w :: eworld and self b :: nat
  defines "mine \<equiv> map_of (registries w self)" and "theirs \<equiv> map_of (registries w b)"
  assumes dist: "distinct (map fst (registries w b))"
    and inj: "\<forall>n1 n2 d. mine n1 = Some d \<and> mine n2 = Some d \<longrightarrow> n1 = n2"
    and disj: "\<forall>n1 n2 e. theirs n1 = Some (EventAt e) \<longrightarrow> mine n2 \<noteq> Some (EventAt e)"
    and pend: "\<forall>n e s. theirs n = Some (EventAt e) \<and> mine n = Some (OneTimeAt s) \<longrightarrow>
                 \<not> d_called (o_events (onetimes w s))"
    and fuel: "\<forall>n e. theirs n = Some (EventAt e) \<longrightarrow> length (e_handlers (events w e)) + 2 \<le> fuel"
  shows "\<exists>w'. copy_many_times_events beh fuel self (PyEventHandler b) w = Some (Inr (), w') \<and>
     registries w' = registries w \<and> calls w' = calls w \<and> log w' = log w \<and>
     (\<forall>n e. theirs n = Some (EventAt e) \<longrightarrow> events w' e = events w e) \<and>
     (\<forall>n s e. mine n = Some (EventAt s) \<and> theirs n = Some (EventAt e) \<longrightarrow>
        events w' s =
          (events w s)\<lparr>e_handlers := e_handlers (events w s) @ e_handlers (events w e)\<rparr>) \<and>
     (\<forall>a. (\<forall>n e. mine n = Some (EventAt a) \<longrightarrow> theirs n \<noteq> Some (EventAt e)) \<longrightarrow>
        events w' a = events w a) \<and>
     (\<forall>n s e. mine n = Some (OneTimeAt s) \<and> theirs n = Some (EventAt e) \<longrightarrow>
        onetimes w' s =
          (onetimes w s)\<lparr>o_events := (o_events (onetimes w s))
             \<lparr>d_callbacks := d_callbacks (o_events (onetimes w s)) @
                map (\<lambda>c. (Function c, None)) (e_handlers (events w e))\<rparr>\<rparr>) \<and>
     (\<forall>a. (\<forall>n e. mine n = Some (OneTimeAt a) \<longrightarrow> theirs n \<noteq> Some (EventAt e)) \<longrightarrow>
        onetimes w' a = onetimes w a)"
proof -
  have "copy_ready mine theirs fuel w"
    using inj disj pend fuel unfolding copy_ready_def by blast
  then have "copy_ready (map_of (registries w self)) (map_of (registries w b)) fuel w"
    by (simp add: mine_def theirs_def)
  from copy_items_copied [OF dist this, of beh] obtain w' where
    1: "copy_items beh fuel self (registries w b) w = Some (Inr (), w')"
    and 2: "copied mine theirs w w'"
    by (auto simp add: mine_def theirs_def)
  have run: "copy_many_times_events beh fuel self (PyEventHandler b) w = Some (Inr (), w')"
    using 1 by (simp add: copy_many_times_events_def)
  have keep: "events w' e = events w e" if "theirs n = Some (EventAt e)" for n e
  proof -
    from that disj have "\<forall>n e'. mine n = Some (EventAt e) \<longrightarrow> theirs n \<noteq> Some (EventAt e')"
      by blast
    with 2 show ?thesis unfolding copied_def by blast
  qed
  from 2 have rest:
    "registries w' = registries w" "calls w' = calls w" "log w' = log w"
    "\<forall>n s e. mine n = Some (EventAt s) \<and> theirs n = Some (EventAt e) \<longrightarrow>
        events w' s = appended_Event w s e"
    "\<forall>a. (\<forall>n e. mine n = Some (EventAt a) \<longrightarrow> theirs n \<noteq> Some (EventAt e)) \<longrightarrow>
        events w' a = events w a"
    "\<forall>n s e. mine n = Some (OneTimeAt s) \<and> theirs n = Some (EventAt e) \<longrightarrow>
        onetimes w' s = appended_OneTime w s e"
    "\<forall>a. (\<forall>n e. mine n = Some (OneTimeAt a) \<longrightarrow> theirs n \<noteq> Some (EventAt e)) \<longrightarrow>
        onetimes w' a = onetimes w a"
    unfolding copied_def by blast+
  show ?thesis
    apply (rule exI [of _ w'])
    using run keep rest
    unfolding appended_Event_def appended_OneTime_def queued_def
    by blast
qed


text \<open>
  Handler 0 copies from handler 1: \<open>data\<close> of handler 0 has function 3 and gets 1 and 2
  appended; \<open>data\<close> and \<open>extra\<close> of handler 1 keep their callbacks; \<open>start\<close> and the
  OneTimes under \<open>finish\<close> of both handlers are unchanged; nothing is called.
\<close>

theorem copy_many_times_events_effect_witness:
  "map_option fst (copy_many_times_events beh_abc 9 0 (PyEventHandler 1) w_two) = Some (Inr ()) \<and>
   e_handlers (events w_two 2) = [3] \<and>
   map_option (\<lambda>r. e_handlers (events (snd r) 2))
     (copy_many_times_events beh_abc 9 0 (PyEventHandler 1) w_two) = Some [3, 1, 2] \<and>
   map_option (\<lambda>r. e_handlers (events (snd r) 5))
     (copy_many_times_events beh_abc 9 0 (PyEventHandler 1) w_two) = Some [1, 2] \<and>
   map_option (\<lambda>r. e_handlers (events (snd r) 6))
     (copy_many_times_events beh_abc 9 0 (PyEventHandler 1) w_two) = Some [3] \<and>
   map_option (\<lambda>r. events (snd r) 3)
     (copy_many_times_events beh_abc 9 0 (PyEventHandler 1) w_two) = Some new_Event \<and>
   map_option (\<lambda>r. onetimes (snd r) 1)
     (copy_many_times_events beh_abc 9 0 (PyEventHandler 1) w_two) = Some new_OneTime \<and>
   map_option (\<lambda>r. onetimes (snd r) 4)
     (copy_many_times_events beh_abc 9 0 (PyEventHandler 1) w_two) = Some new_OneTime \<and>
   map_option (\<lambda>r. calls (snd r))
     (copy_many_times_events beh_abc 9 0 (PyEventHandler 1) w_two) = Some []"
proof -
  have r0: "registries w_two 0 =
      [(''start'', EventAt 3), (''finish'', OneTimeAt 1), (''data'', EventAt 2)]"
    and r1: "registries w_two 1 =
      [(''finish'', OneTimeAt 4), (''data'', EventAt 5), (''extra'', EventAt 6)]"
    by (simp_all add: w_two_eq)
  note r1 = r1 r1 [unfolded One_nat_def]
  have ev: "events w_two 2 = new_Event\<lparr>e_handlers := [3]\<rparr>"
    "events w_two 5 = new_Event\<lparr>e_handlers := [1, 2]\<rparr>"
    "events w_two 6 = new_Event\<lparr>e_handlers := [3]\<rparr>"
    "events w_two 3 = new_Event"
    "onetimes w_two 1 = new_OneTime" "onetimes w_two 4 = new_OneTime" "calls w_two = []"
    by (simp_all add: w_two_eq)
  have h1: "distinct (map fst (registries w_two 1))" by (simp add: r1)
  have h2: "\<forall>n1 n2 d. map_of (registries w_two 0) n1 = Some d \<and>
      map_of (registries w_two 0) n2 = Some d \<longrightarrow> n1 = n2"
    by (auto simp add: r0 split: if_splits)
  have h3: "\<forall>n1 n2 e. map_of (registries w_two 1) n1 = Some (EventAt e) \<longrightarrow>
      map_of (registries w_two 0) n2 \<noteq> Some (EventAt e)"
    by (auto simp add: r0 r1 split: if_splits)
  have h4: "\<forall>n e s. map_of (registries w_two 1) n = Some (EventAt e) \<and>
      map_of (registries w_two 0) n = Some (OneTimeAt s) \<longrightarrow>
      \<not> d_called (o_events (onetimes w_two s))"
    by (auto simp add: r0 r1 split: if_splits)
  have h5: "\<forall>n e. map_of (registries w_two 1) n = Some (EventAt e) \<longrightarrow>
      length (e_handlers (events w_two e)) + 2 \<le> 9"
    by (auto simp add: r1 ev split: if_splits)
  from copy_many_times_events_effect
         [where w = w_two and self = 0 and b = 1 and fuel = 9 and beh = beh_abc,
          OF h1 h2 h3 h4 h5]
  obtain w' where run: "copy_many_times_events beh_abc 9 0 (PyEventHandler 1) w_two = Some (Inr (), w')"
    and calls: "calls w' = calls w_two"
    and theirs: "\<forall>n e. map_of (registries w_two 1) n = Some (EventAt e) \<longrightarrow>
        events w' e = events w_two e"
    and mine: "\<forall>n s e. map_of (registries w_two 0) n = Some (EventAt s) \<and>
        map_of (registries w_two 1) n = Some (EventAt e) \<longrightarrow>
        events w' s =
          (events w_two s)\<lparr>e_handlers := e_handlers (events w_two s) @ e_handlers (events w_two e)\<rparr>"
    and other_events: "\<forall>a. (\<forall>n e. map_of (registries w_two 0) n = Some (EventAt a) \<longrightarrow>
          map_of (registries w_two 1) n \<noteq> Some (EventAt e)) \<longrightarrow>
        events w' a = events w_two a"
    and other_onetimes: "\<forall>a. (\<forall>n e. map_of (registries w_two 0) n = Some (OneTimeAt a) \<longrightarrow>
          map_of (registries w_two 1) n \<noteq> Some (EventAt e)) \<longrightarrow>
        onetimes w' a = onetimes w_two a"
    by blast
  have a: "events w' 2 = (events w_two 2)\<lparr>e_handlers := e_handlers (events w_two 2) @ e_handlers (events w_two 5)\<rparr>"
    using mine [rule_format, of "''data''" 2 5] by (simp add: r0 r1)
  have b: "events w' 5 = events w_two 5"
    using theirs [rule_format, of "''data''" 5] by (simp add: r1)
  have c: "events w' 6 = events w_two 6"
    using theirs [rule_format, of "''extra''" 6] by (simp add: r1)
  have "\<forall>n e. map_of (registries w_two 0) n = Some (EventAt 3) \<longrightarrow>
          map_of (registries w_two 1) n \<noteq> Some (EventAt e)"
    by (auto simp add: r0 r1 split: if_splits)
  with other_events have d: "events w' 3 = events w_two 3" by blast
  have "\<forall>n e. map_of (registries w_two 0) n = Some (OneTimeAt 1) \<longrightarrow>
          map_of (registries w_two 1) n \<noteq> Some (EventAt e)"
    by (auto simp add: r0 r1 split: if_splits)
  with other_onetimes have e: "onetimes w' 1 = onetimes w_two 1" by blast
  have "\<forall>n e. map_of (registries w_two 0) n = Some (OneTimeAt 4) \<longrightarrow>
          map_of (registries w_two 1) n \<noteq> Some (EventAt e)"
    by (auto simp add: r0 r1 split: if_splits)
  with other_onetimes have f: "onetimes w' 4 = onetimes w_two 4" by blast
  note facts = a b c d e f calls ev
  show ?thesis
    unfolding run by (simp add: facts facts [unfolded One_nat_def])
qed


end
